theory Spec2Isabelle
  imports Main
begin

section \<open>Python values used by ffextract-subtitles.py\<close>

text \<open>
  Strings are lists of characters. The program only ever searches for the ASCII needles
  \<open>forc\<close> and \<open>sdh\<close> in a lowered title, and no non-ASCII character lowers to one of
  the letters of these needles, so \<open>str.lower\<close> is modelled on the ASCII letters.
\<close>

definition lower_char :: "char \<Rightarrow> char" where
  "lower_char c =
     (case map_of (zip ''ABCDEFGHIJKLMNOPQRSTUVWXYZ'' ''abcdefghijklmnopqrstuvwxyz'') c of
        None \<Rightarrow> c
      | Some l \<Rightarrow> l)"

definition lower :: "string \<Rightarrow> string" where
  "lower s = map lower_char s"

fun startswith :: "string \<Rightarrow> string \<Rightarrow> bool" where
  "startswith s [] = True"
| "startswith [] (p # ps) = False"
| "startswith (c # cs) (p # ps) = (c = p \<and> startswith cs ps)"

text \<open>\<open>str_in sub s\<close> is Python's \<open>sub in s\<close> on strings.\<close>

fun str_in :: "string \<Rightarrow> string \<Rightarrow> bool" where
  "str_in sub [] = (sub = [])"
| "str_in sub (c # cs) = (startswith (c # cs) sub \<or> str_in sub cs)"

text \<open>\<open>split_sep sep s\<close> is \<open>s.split(sep)\<close> for a one-character separator.\<close>

fun split_sep :: "char \<Rightarrow> string \<Rightarrow> string list" where
  "split_sep sep [] = [[]]"
| "split_sep sep (c # cs) =
     (if c = sep then [] # split_sep sep cs
      else (case split_sep sep cs of
              [] \<Rightarrow> [[c]]
            | w # ws \<Rightarrow> (c # w) # ws))"

text \<open>\<open>str_int\<close> is \<open>str\<close> (and \<open>'{}'.format\<close>) on an integer.\<close>

definition digit_char :: "nat \<Rightarrow> char" where
  "digit_char d = ''0123456789'' ! d"

fun str_nat :: "nat \<Rightarrow> string" where
  "str_nat n =
     (if n < 10 then [digit_char n]
      else str_nat (n div 10) @ [digit_char (n mod 10)])"

definition str_int :: "int \<Rightarrow> string" where
  "str_int i = (if i < 0 then CHR ''-'' # str_nat (nat (- i)) else str_nat (nat i))"

text \<open>
  The values \<open>json.loads\<close> returns. A dictionary is an association list read with
  \<open>map_of\<close>. JSON numbers with a fraction or an exponent (Python floats) are left out:
  ffprobe prints stream indices and disposition flags as integers.
\<close>

datatype jvalue =
    JNull
  | JBool bool
  | JInt int
  | JStr string
  | JArr "jvalue list"
  | JObj "(string \<times> jvalue) list"

datatype exn =
    UnicodeDecodeError
  | CalledProcessError int "string list"
  | OSError int
  | AttributeError
  | TypeError
  | JSONDecodeError
  | SystemExit int

definition try_bind :: "exn + 'a \<Rightarrow> ('a \<Rightarrow> exn + 'b) \<Rightarrow> exn + 'b" where
  "try_bind r f = (case r of Inl e \<Rightarrow> Inl e | Inr x \<Rightarrow> f x)"

text \<open>\<open>py_get d k dflt\<close> is \<open>d.get(k, dflt)\<close>; only a dictionary has the method.\<close>

fun py_get :: "jvalue \<Rightarrow> string \<Rightarrow> jvalue \<Rightarrow> exn + jvalue" where
  "py_get (JObj kvs) k dflt = Inr (case map_of kvs k of None \<Rightarrow> dflt | Some v \<Rightarrow> v)"
| "py_get v k dflt = Inl AttributeError"

text \<open>\<open>py_lower v\<close> is \<open>v.lower()\<close>; only a string has the method.\<close>

fun py_lower :: "jvalue \<Rightarrow> exn + string" where
  "py_lower (JStr s) = Inr (lower s)"
| "py_lower v = Inl AttributeError"

text \<open>\<open>py_eq_int v k\<close> is \<open>v == k\<close> for an integer \<open>k\<close>; Python's \<open>True\<close> equals 1.\<close>

fun py_eq_int :: "jvalue \<Rightarrow> int \<Rightarrow> bool" where
  "py_eq_int (JInt n) k = (n = k)"
| "py_eq_int (JBool b) k = ((if b then 1 else 0) = k)"
| "py_eq_int v k = False"

text \<open>Iteration: a list gives its elements, a dictionary its keys, a string its characters.\<close>

fun py_iter :: "jvalue \<Rightarrow> exn + jvalue list" where
  "py_iter (JArr xs) = Inr xs"
| "py_iter (JObj kvs) = Inr (map (\<lambda>kv. JStr (fst kv)) kvs)"
| "py_iter (JStr s) = Inr (map (\<lambda>c. JStr [c]) s)"
| "py_iter v = Inl TypeError"

section \<open>The world outside: file system, subprocesses, printed lines\<close>

type_synonym fsys = "string \<Rightarrow> string option"

text \<open>
  What the operating system does with a command: the process exits with a return code and
  its two decoded output streams, or its output is not valid UTF-8, or it cannot be
  started (an \<open>OSError\<close> with its errno, 2 when the binary is missing).
\<close>

datatype proc =
    Exited int string string
  | Undecodable
  | NotLaunched int

type_synonym exec = "string list \<Rightarrow> fsys \<Rightarrow> proc \<times> fsys"

datatype errtext = Text string | ExnStr exn

datatype msg =
    Msg_error_probe string
  | Msg_probe_stderr errtext
  | Msg_no_subtitles string
  | Msg_process string nat
  | Msg_json_header int
  | Msg_json_lines jvalue
  | Msg_subtitle int jvalue int jvalue jvalue jvalue bool jvalue
  | Msg_ignore_codec jvalue
  | Msg_ignore_forced
  | Msg_ignore_language jvalue
  | Msg_ignore_sdh
  | Msg_filename string
  | Msg_exists string
  | Msg_error_code int errtext
  | Msg_done string
  | Msg_need_filelist

record state =
  fs :: fsys
  out :: "msg list"
  calls :: "string list list"

definition prints :: "state \<Rightarrow> msg list \<Rightarrow> state" where
  "prints st ms = st\<lparr>out := out st @ ms\<rparr>"

text \<open>\<open>subprocess.run(cmd, ..., check=chk)\<close>.\<close>

definition subprocess_run ::
  "exec \<Rightarrow> string list \<Rightarrow> bool \<Rightarrow> state \<Rightarrow> (exn + int \<times> string \<times> string) \<times> state" where
  "subprocess_run ex cmd chk st =
     (case ex cmd (fs st) of (p, fs') \<Rightarrow>
        (let st' = st\<lparr>fs := fs', calls := calls st @ [cmd]\<rparr>
         in case p of
              NotLaunched errno \<Rightarrow> (Inl (OSError errno), st')
            | Undecodable \<Rightarrow> (Inl UnicodeDecodeError, st')
            | Exited rc so se \<Rightarrow>
                (if chk \<and> rc \<noteq> 0 then (Inl (CalledProcessError rc cmd), st')
                 else (Inr (rc, so, se), st'))))"

section \<open>ffprobe and ffsubextract\<close>

record FFProbeResult =
  return_code :: int
  json :: string
  error :: errtext

text \<open>The exceptions named in the two \<open>except\<close> clauses.\<close>

fun caught :: "exn \<Rightarrow> bool" where
  "caught UnicodeDecodeError = True"
| "caught (CalledProcessError rc cmd) = True"
| "caught e = False"

definition ffprobe_command :: "string \<Rightarrow> string list" where
  "ffprobe_command file_path =
     [''ffprobe'', ''-v'', ''quiet'', ''-print_format'', ''json'',
      ''-show_format'', ''-show_streams'', file_path]"

definition ffprobe :: "exec \<Rightarrow> string \<Rightarrow> state \<Rightarrow> (exn + FFProbeResult) \<times> state" where
  "ffprobe ex file_path st =
     (let command_array = ffprobe_command file_path
      in case subprocess_run ex command_array True st of
           (Inl e, st') \<Rightarrow>
             (if caught e
              then (Inr \<lparr>return_code = 1212, json = [], error = ExnStr e\<rparr>, st')
              else (Inl e, st'))
         | (Inr (rc, so, se), st') \<Rightarrow>
             (Inr \<lparr>return_code = rc, json = so, error = Text se\<rparr>, st'))"

definition ffmpeg_command :: "string \<Rightarrow> int \<Rightarrow> string \<Rightarrow> string list" where
  "ffmpeg_command file_path subtitle_index fileout_path =
     [''ffmpeg'', ''-hide_banner'', ''-loglevel'', ''error'', ''-n'',
      ''-i'', file_path,
      ''-map'', ''0:s:'' @ str_int subtitle_index,
      fileout_path]"

definition ffsubextract ::
  "exec \<Rightarrow> string \<Rightarrow> int \<Rightarrow> string \<Rightarrow> state \<Rightarrow> (exn + int \<times> errtext) \<times> state" where
  "ffsubextract ex file_path subtitle_index fileout_path st =
     (let command_array = ffmpeg_command file_path subtitle_index fileout_path
      in case subprocess_run ex command_array False st of
           (Inl e, st') \<Rightarrow>
             (if caught e then (Inr (- 1, ExnStr e), st') else (Inl e, st'))
         | (Inr (rc, so, se), st') \<Rightarrow> (Inr (rc, Text se), st'))"

section \<open>Paths (\<open>posixpath\<close>) and the file system\<close>

text \<open>\<open>rfind c s\<close> is \<open>s.rfind(c)\<close>: the last position of \<open>c\<close>, or -1.\<close>

fun rfind :: "char \<Rightarrow> string \<Rightarrow> int" where
  "rfind c [] = - 1"
| "rfind c (x # xs) =
     (let r = rfind c xs
      in if 0 \<le> r then r + 1 else if x = c then 0 else - 1)"

text \<open>
  \<open>os.path.splitext\<close>: the extension starts at the last dot of the last path component,
  unless only dots precede it in that component.
\<close>

definition splitext :: "string \<Rightarrow> string \<times> string" where
  "splitext p =
     (let sepIndex = rfind CHR ''/'' p;
          dotIndex = rfind CHR ''.'' p
      in if sepIndex < dotIndex \<and>
            list_ex (\<lambda>c. c \<noteq> CHR ''.'')
              (take (nat dotIndex - nat (sepIndex + 1)) (drop (nat (sepIndex + 1)) p))
         then (take (nat dotIndex) p, drop (nat dotIndex) p)
         else (p, []))"

definition rstrip :: "char list \<Rightarrow> string \<Rightarrow> string" where
  "rstrip chars s = rev (dropWhile (\<lambda>c. c \<in> set chars) (rev s))"

text \<open>\<open>os.path.split\<close>: head and tail around the last slash.\<close>

definition path_split :: "string \<Rightarrow> string \<times> string" where
  "path_split p =
     (let i = nat (rfind CHR ''/'' p + 1);
          head = take i p;
          tail = drop i p
      in (if head \<noteq> [] \<and> head \<noteq> replicate (length head) CHR ''/''
          then rstrip ''/'' head else head, tail))"

text \<open>\<open>os.path.join\<close> of two components.\<close>

definition path_join :: "string \<Rightarrow> string \<Rightarrow> string" where
  "path_join a b =
     (if startswith b ''/'' then b
      else if a = [] \<or> last a = CHR ''/'' then a @ b
      else a @ ''/'' @ b)"

definition path_exists :: "state \<Rightarrow> string \<Rightarrow> bool" where
  "path_exists st p = (fs st p \<noteq> None)"

section \<open>ExtractSubtitles\<close>

record args =
  filelist :: "string list"
  language :: string
  verbose :: int
  get_sdh :: bool
  get_forced :: bool
  show_probe :: bool
  scan_only :: bool

definition supported_extensions :: "string list" where
  "supported_extensions = [''.mkv'', ''.mp4'', ''.mov'', ''.avi'', ''.mpg'', ''.mpeg'']"

definition supported_codec :: "string list" where
  "supported_codec = [''subrip'', ''ass'']"

definition unsupported_codec :: "string list" where
  "unsupported_codec = [''hdmv_pgs_subtitle'', ''dvd_subtitle'']"

text \<open>Line 103: keep only subtitle streams.\<close>

fun keep_subtitles :: "jvalue list \<Rightarrow> exn + jvalue list" where
  "keep_subtitles [] = Inr []"
| "keep_subtitles (stream # rest) =
     try_bind (py_get stream ''codec_type'' (JStr ''unknown''))
       (\<lambda>t. try_bind (keep_subtitles rest)
          (\<lambda>ss. Inr (if t = JStr ''subtitle'' then stream # ss else ss)))"

definition subtitle_streams :: "jvalue \<Rightarrow> exn + jvalue list" where
  "subtitle_streams ffprobe_json =
     try_bind (py_get ffprobe_json ''streams'' (JArr []))
       (\<lambda>v. try_bind (py_iter v) keep_subtitles)"

text \<open>
  Lines 120 to 125: the values read from one stream, as
  \<open>(forced, language, title, is_forced)\<close>. The \<open>or\<close> does not evaluate
  \<open>title.lower()\<close> when the flag already equals 1.
\<close>

definition stream_tags :: "jvalue \<Rightarrow> exn + jvalue \<times> jvalue \<times> jvalue \<times> bool" where
  "stream_tags stream =
     try_bind (py_get stream ''disposition'' (JObj [])) (\<lambda>disposition.
     try_bind (py_get disposition ''forced'' (JStr ''unset'')) (\<lambda>forced.
     try_bind (py_get stream ''tags'' (JObj [])) (\<lambda>tags.
     try_bind (py_get tags ''language'' (JStr ''unset'')) (\<lambda>lang.
     try_bind (py_get tags ''title'' (JStr ''unset'')) (\<lambda>title.
       if py_eq_int forced 1 then Inr (forced, lang, title, True)
       else try_bind (py_lower title)
              (\<lambda>t. Inr (forced, lang, title, str_in ''forc'' t)))))))"

datatype verdict =
    Scan_only
  | Ignore_codec
  | Ignore_forced
  | Ignore_language
  | Ignore_sdh
  | Extract string

text \<open>
  Lines 129 to 159: the filters, in the order of the source, with the lines they print.
  A language that is not a string differs from \<open>'unset'\<close> and from every element of the
  split option, so it is ignored; the language of an extracted stream is a string.
\<close>

definition select_stream ::
  "args \<Rightarrow> jvalue \<Rightarrow> jvalue \<Rightarrow> jvalue \<Rightarrow> bool \<Rightarrow> exn + verdict \<times> msg list" where
  "select_stream a codec_name lang title is_forced =
     (if scan_only a then Inr (Scan_only, [])
      else if codec_name \<in> set (map JStr unsupported_codec)
        then Inr (Ignore_codec, if verbose a \<noteq> 0 then [Msg_ignore_codec codec_name] else [])
      else if is_forced \<and> \<not> get_forced a
        then Inr (Ignore_forced, if verbose a \<noteq> 0 then [Msg_ignore_forced] else [])
      else if lang \<noteq> JStr ''unset'' \<and>
              lang \<notin> set (map JStr (split_sep CHR '','' (language a)))
        then Inr (Ignore_language, if verbose a \<noteq> 0 then [Msg_ignore_language lang] else [])
      else try_bind (py_lower title) (\<lambda>t.
        if str_in ''sdh'' t \<and> \<not> get_sdh a
        then Inr (Ignore_sdh, if verbose a \<noteq> 0 then [Msg_ignore_sdh] else [])
        else (case lang of
                JStr l \<Rightarrow> Inr (Extract l, [])
              | _ \<Rightarrow> Inr (Ignore_language, []))))"

type_synonym decision = "int \<times> string \<times> bool"

text \<open>
  One pass of the loop of line 108, after \<open>index_subtitle += 1\<close>: the result is the
  tuple appended to \<open>streams_to_extract\<close>, if any, and the lines printed.
\<close>

definition examine_stream ::
  "args \<Rightarrow> string \<Rightarrow> nat \<Rightarrow> int \<Rightarrow> bool \<Rightarrow> jvalue \<Rightarrow> (exn + decision option) \<times> msg list" where
  "examine_stream a file_path n index_subtitle fname_printed stream =
     (case try_bind (py_get stream ''index'' (JStr ''unknown'')) (\<lambda>index.
           try_bind (py_get stream ''codec_name'' (JStr ''unknown'')) (\<lambda>codec_name.
             Inr (index, codec_name))) of
        Inl e \<Rightarrow> (Inl e, [])
      | Inr (index, codec_name) \<Rightarrow>
          (let m1 = (if \<not> fname_printed then [Msg_process file_path n] else []) @
                    (if show_probe a
                     then [Msg_json_header (index_subtitle + 1), Msg_json_lines stream]
                     else [])
           in case stream_tags stream of
                Inl e \<Rightarrow> (Inl e, m1)
              | Inr (forced, lang, title, is_forced) \<Rightarrow>
                  (let m2 = m1 @
                         (if 1 < verbose a
                          then [Msg_subtitle (index_subtitle + 1) index index_subtitle
                                  codec_name lang forced is_forced title]
                          else [])
                   in case select_stream a codec_name lang title is_forced of
                        Inl e \<Rightarrow> (Inl e, m2)
                      | Inr (v, m3) \<Rightarrow>
                          (Inr (case v of
                                  Extract l \<Rightarrow> Some (index_subtitle, l, is_forced)
                                | _ \<Rightarrow> None),
                           m2 @ m3))))"

text \<open>
  The loop of lines 108 to 159. \<open>index_subtitle\<close> holds the value before the increment
  (-1 at the start) and \<open>acc\<close> is \<open>streams_to_extract\<close>.
\<close>

fun examine_streams ::
  "args \<Rightarrow> string \<Rightarrow> nat \<Rightarrow> jvalue list \<Rightarrow> int \<Rightarrow> bool \<Rightarrow> decision list
     \<Rightarrow> (exn + decision list) \<times> msg list" where
  "examine_streams a file_path n [] index_subtitle fname_printed acc = (Inr acc, [])"
| "examine_streams a file_path n (stream # rest) index_subtitle fname_printed acc =
     (case examine_stream a file_path n (index_subtitle + 1) fname_printed stream of
        (Inl e, ms) \<Rightarrow> (Inl e, ms)
      | (Inr d, ms) \<Rightarrow>
          (case examine_streams a file_path n rest (index_subtitle + 1) True
                  (acc @ (case d of None \<Rightarrow> [] | Some x \<Rightarrow> [x])) of
             (r, ms') \<Rightarrow> (r, ms @ ms')))"

text \<open>Lines 163 to 168: the name of the subtitle file, \<open>n\<close> being \<open>len(streams_to_extract)\<close>.\<close>

definition final_name :: "string \<Rightarrow> nat \<Rightarrow> decision \<Rightarrow> string" where
  "final_name file_path n d =
     (case d of (index_subtitle, lang, is_forced) \<Rightarrow>
        (let foutname = fst (splitext file_path)
         in if n = 1 then foutname @ ''.srt''
            else foutname @ ''.'' @ lang @ ''.'' @ str_int index_subtitle @
                 (if is_forced then ''.forced'' else []) @ ''.srt''))"

text \<open>One pass of the loop of line 162.\<close>

definition extract_stream ::
  "exec \<Rightarrow> args \<Rightarrow> string \<Rightarrow> nat \<Rightarrow> decision \<Rightarrow> state \<Rightarrow> (exn + unit) \<times> state" where
  "extract_stream ex a file_path n d st =
     (let name = final_name file_path n d;
          st1 = (if 1 < verbose a then prints st [Msg_filename name] else st)
      in if path_exists st1 name
         then (Inr (), if verbose a \<noteq> 0 then prints st1 [Msg_exists name] else st1)
         else (case ffsubextract ex file_path (fst d) name st1 of
                 (Inl e, st2) \<Rightarrow> (Inl e, st2)
               | (Inr (code, result), st2) \<Rightarrow>
                   (Inr (), prints st2 [if code \<noteq> 0 then Msg_error_code code result
                                        else Msg_done name])))"

text \<open>A \<open>for\<close> loop whose body may raise: the exception ends the loop.\<close>

fun for_each ::
  "('a \<Rightarrow> state \<Rightarrow> (exn + unit) \<times> state) \<Rightarrow> 'a list \<Rightarrow> state \<Rightarrow> (exn + unit) \<times> state" where
  "for_each body [] st = (Inr (), st)"
| "for_each body (x # xs) st =
     (case body x st of
        (Inl e, st') \<Rightarrow> (Inl e, st')
      | (Inr u, st') \<Rightarrow> for_each body xs st')"

text \<open>
  \<open>get_ffmpeg_track_id\<close>; \<open>loads\<close> is \<open>json.loads\<close>, which raises on text that is not
  JSON.
\<close>

definition get_ffmpeg_track_id ::
  "exec \<Rightarrow> (string \<Rightarrow> exn + jvalue) \<Rightarrow> args \<Rightarrow> string \<Rightarrow> state \<Rightarrow> (exn + unit) \<times> state" where
  "get_ffmpeg_track_id ex loads a file_path st =
     (case ffprobe ex file_path st of
        (Inl e, st1) \<Rightarrow> (Inl e, st1)
      | (Inr ffprobe_result, st1) \<Rightarrow>
          (if return_code ffprobe_result \<noteq> 0
           then (Inr (), prints st1 [Msg_error_probe file_path,
                                     Msg_probe_stderr (error ffprobe_result)])
           else (case try_bind (loads (json ffprobe_result)) subtitle_streams of
                   Inl e \<Rightarrow> (Inl e, st1)
                 | Inr streams \<Rightarrow>
                     (if streams = [] \<and> 1 < verbose a
                      then (Inr (), prints st1 [Msg_no_subtitles file_path])
                      else (case examine_streams a file_path (length streams) streams (- 1)
                                   False [] of
                              (Inl e, ms) \<Rightarrow> (Inl e, prints st1 ms)
                            | (Inr streams_to_extract, ms) \<Rightarrow>
                                for_each
                                  (extract_stream ex a file_path (length streams_to_extract))
                                  streams_to_extract (prints st1 ms))))))"

definition process_movie ::
  "exec \<Rightarrow> (string \<Rightarrow> exn + jvalue) \<Rightarrow> args \<Rightarrow> string option \<times> string \<Rightarrow> state
     \<Rightarrow> (exn + unit) \<times> state" where
  "process_movie ex loads a rn st =
     (case (case rn of
              (None, name) \<Rightarrow> path_split name
            | (Some root, name) \<Rightarrow> (if root = [] then path_split name else (root, name))) of
        (root, name) \<Rightarrow>
          (if snd (splitext name) \<notin> set supported_extensions then (Inr (), st)
           else get_ffmpeg_track_id ex loads a (path_join root name) st))"

text \<open>
  What \<open>glob.glob\<close>, \<open>os.path.isfile\<close>, \<open>os.path.isdir\<close> and \<open>os.walk\<close> report for one
  name: a regular file, a directory with the \<open>(root, files)\<close> pairs of its walk, or
  something else.
\<close>

datatype entry =
    Regular_file string
  | Directory "(string \<times> string list) list"
  | Other_entry

fun entry_movies :: "entry \<Rightarrow> (string option \<times> string) list" where
  "entry_movies (Regular_file fname) = [(None, fname)]"
| "entry_movies (Directory walk) =
     concat (map (\<lambda>rf. map (\<lambda>fname. (Some (fst rf), fname)) (snd rf)) walk)"
| "entry_movies Other_entry = []"

definition process ::
  "exec \<Rightarrow> (string \<Rightarrow> exn + jvalue) \<Rightarrow> (string \<Rightarrow> entry list) \<Rightarrow> args \<Rightarrow> state
     \<Rightarrow> (exn + unit) \<times> state" where
  "process ex loads glob a st =
     for_each (process_movie ex loads a)
       (concat (map (\<lambda>glob_name. concat (map entry_movies (glob (rstrip [CHR 0x0D, CHR 0x0A] glob_name))))
                  (filelist a)))
       st"

section \<open>main and the exit status\<close>

text \<open>
  \<open>parser.parse_args()\<close> either leaves the program with a status (usage error, help) or
  returns the namespace.
\<close>

datatype parsed = Parser_exit int | Namespace args

definition main ::
  "exec \<Rightarrow> (string \<Rightarrow> exn + jvalue) \<Rightarrow> (string \<Rightarrow> entry list) \<Rightarrow> parsed \<Rightarrow> state
     \<Rightarrow> (exn + unit) \<times> state" where
  "main ex loads glob p st =
     (case p of
        Parser_exit c \<Rightarrow> (Inl (SystemExit c), st)
      | Namespace a \<Rightarrow>
          (if filelist a = [] then (Inl (SystemExit 1), prints st [Msg_need_filelist])
           else process ex loads glob a st))"

text \<open>
  Lines 238 to 244 and the interpreter: an \<open>IOError\<close> with errno 22 or 32 is swallowed,
  \<open>SystemExit\<close> gives its status, any other exception ends the program with status 1.
\<close>

definition exit_status :: "exn + unit \<Rightarrow> int" where
  "exit_status r =
     (case r of
        Inr u \<Rightarrow> 0
      | Inl (OSError errno) \<Rightarrow> (if errno \<notin> set [22, 32] then 1 else 0)
      | Inl (SystemExit c) \<Rightarrow> c
      | Inl e \<Rightarrow> 1)"

definition run_script ::
  "exec \<Rightarrow> (string \<Rightarrow> exn + jvalue) \<Rightarrow> (string \<Rightarrow> entry list) \<Rightarrow> parsed \<Rightarrow> state
     \<Rightarrow> int \<times> state" where
  "run_script ex loads glob p st =
     (case main ex loads glob p st of (r, st') \<Rightarrow> (exit_status r, st'))"

section \<open>Reading decimal text back\<close>

definition digit_val :: "char \<Rightarrow> nat" where
  "digit_val c = (case map_of (zip ''0123456789'' [0, 1, 2, 3, 4, 5, 6, 7, 8, 9]) c of
                    None \<Rightarrow> 0 | Some d \<Rightarrow> d)"

definition nat_of_digits :: "string \<Rightarrow> nat" where
  "nat_of_digits s = foldl (\<lambda>a c. 10 * a + digit_val c) 0 s"

section \<open>Example inputs\<close>

definition example_args :: args where
  "example_args = \<lparr>filelist = [''movie.mkv''], language = ''fre,fra'', verbose = 0,
                    get_sdh = False, get_forced = False, show_probe = False,
                    scan_only = False\<rparr>"

definition subtitle_stream :: "int \<Rightarrow> string \<Rightarrow> int \<Rightarrow> (string \<times> jvalue) list \<Rightarrow> jvalue" where
  "subtitle_stream index codec forced tags =
     JObj [(''index'', JInt index), (''codec_name'', JStr codec),
           (''codec_type'', JStr ''subtitle''),
           (''disposition'', JObj [(''default'', JInt 0), (''forced'', JInt forced)]),
           (''tags'', JObj tags)]"

definition stream_video :: jvalue where
  "stream_video = JObj [(''index'', JInt 0), (''codec_name'', JStr ''h264''),
                        (''codec_type'', JStr ''video'')]"

definition stream_fra :: jvalue where
  "stream_fra = subtitle_stream 2 ''subrip'' 0 [(''language'', JStr ''fra'')]"

definition stream_eng :: jvalue where
  "stream_eng = subtitle_stream 3 ''subrip'' 0 [(''language'', JStr ''eng'')]"

definition stream_untagged :: jvalue where
  "stream_untagged = subtitle_stream 4 ''subrip'' 0 []"

definition stream_pgs :: jvalue where
  "stream_pgs = subtitle_stream 5 ''hdmv_pgs_subtitle'' 0 [(''language'', JStr ''fra'')]"

definition stream_forced_title :: jvalue where
  "stream_forced_title =
     subtitle_stream 6 ''subrip'' 0 [(''language'', JStr ''fra''), (''title'', JStr ''French FORCED'')]"

definition empty_state :: state where
  "empty_state = \<lparr>fs = Map.empty, out = [], calls = []\<rparr>"

definition exec_missing :: exec where
  "exec_missing cmd f = (NotLaunched 2, f)"

definition exec_exit1 :: exec where
  "exec_exit1 cmd f = (Exited 1 [] ''failed'', f)"

text \<open>ffprobe prints its report; ffmpeg writes the destination, the last argument.\<close>

definition exec_writes :: exec where
  "exec_writes cmd f =
     (if hd cmd = ''ffprobe'' then (Exited 0 ''report'' [], f)
      else (Exited 0 [] [], f(last cmd \<mapsto> ''subtitles'')))"

definition loads_fra_eng :: "string \<Rightarrow> exn + jvalue" where
  "loads_fra_eng s = Inr (JObj [(''streams'', JArr [stream_video, stream_fra, stream_eng])])"

definition loads_fails :: "string \<Rightarrow> exn + jvalue" where
  "loads_fails s = Inl JSONDecodeError"

text \<open>The probe succeeds and every extraction fails with status 1.\<close>

definition exec_extract_fails :: exec where
  "exec_extract_fails cmd f =
     (if hd cmd = ''ffprobe'' then (Exited 0 ''report'' [], f)
      else (Exited 1 [] ''failed'', f))"

text \<open>Like \<open>json.loads\<close>, it accepts the probe's report and rejects the empty text.\<close>

definition loads_report :: "string \<Rightarrow> exn + jvalue" where
  "loads_report s =
     (if s = ''report''
      then Inr (JObj [(''streams'', JArr [stream_video, stream_fra, stream_eng])])
      else Inl JSONDecodeError)"

definition glob_file :: "string \<Rightarrow> entry list" where
  "glob_file name = [Regular_file name]"

definition extracted_state :: state where
  "extracted_state = \<lparr>fs = [''movie.srt'' \<mapsto> ''subtitles''], out = [], calls = []\<rparr>"

section \<open>Substring search\<close>

lemma startswith_iff: "startswith s p \<longleftrightarrow> (\<exists>ss. s = p @ ss)"
  by (induction s p rule: startswith.induct) auto

lemma str_in_iff: "str_in sub s \<longleftrightarrow> (\<exists>ps ss. s = ps @ sub @ ss)"
proof (induction s)
  case Nil
  then show ?case by auto
next
  case (Cons c cs)
  show ?case
  proof
    assume "str_in sub (c # cs)"
    then consider "startswith (c # cs) sub" | "str_in sub cs" by auto
    then show "\<exists>ps ss. c # cs = ps @ sub @ ss"
    proof cases
      case 1
      then obtain ss where "c # cs = sub @ ss" by (auto simp: startswith_iff)
      then have "c # cs = [] @ sub @ ss" by simp
      then show ?thesis by blast
    next
      case 2
      then obtain ps ss where "cs = ps @ sub @ ss" using Cons.IH by blast
      then have "c # cs = (c # ps) @ sub @ ss" by simp
      then show ?thesis by blast
    qed
  next
    assume "\<exists>ps ss. c # cs = ps @ sub @ ss"
    then obtain ps ss where eq: "c # cs = ps @ sub @ ss" by blast
    show "str_in sub (c # cs)"
    proof (cases ps)
      case Nil
      with eq have "startswith (c # cs) sub" by (auto simp: startswith_iff)
      then show ?thesis by simp
    next
      case (Cons p ps')
      with eq have "cs = ps' @ sub @ ss" by simp
      then have "str_in sub cs" using Cons.IH by blast
      then show ?thesis by simp
    qed
  qed
qed

lemma str_in_lower_iff:
  "str_in w (lower t) \<longleftrightarrow> (\<exists>ps ms ss. t = ps @ ms @ ss \<and> lower ms = w)"
proof
  assume "str_in w (lower t)"
  then have "\<exists>ps ss. map lower_char t = ps @ (w @ ss)"
    by (simp only: str_in_iff lower_def)
  then obtain ps ss where "map lower_char t = ps @ (w @ ss)" by blast
  then have "\<exists>us vs. t = us @ vs \<and> ps = map lower_char us \<and> w @ ss = map lower_char vs"
    by (simp only: map_eq_append_conv)
  then obtain us vs where t: "t = us @ vs" and vs: "map lower_char vs = w @ ss"
    by metis
  from vs have "\<exists>ms ws. vs = ms @ ws \<and> w = map lower_char ms \<and> ss = map lower_char ws"
    by (simp only: map_eq_append_conv)
  then obtain ms ws where "vs = ms @ ws" and "w = map lower_char ms" by blast
  with t have "t = us @ ms @ ws \<and> lower ms = w" by (simp add: lower_def)
  then show "\<exists>ps ms ss. t = ps @ ms @ ss \<and> lower ms = w" by blast
next
  assume "\<exists>ps ms ss. t = ps @ ms @ ss \<and> lower ms = w"
  then obtain ps ms ss where "t = ps @ ms @ ss" and "lower ms = w" by blast
  then have "lower t = lower ps @ w @ lower ss" by (simp add: lower_def)
  then show "str_in w (lower t)" unfolding str_in_iff by blast
qed

lemma unset_no_forc: "\<not> str_in ''forc'' (lower ''unset'')"
  by (simp add: lower_def lower_char_def)

text \<open>\<open>split_sep\<close> cuts at every separator and nowhere else.\<close>

lemma split_sep_not_Nil: "split_sep sep s \<noteq> []"
  by (induction s) (auto split: list.splits)

lemma split_sep_join: "concat (map (\<lambda>w. sep # w) (split_sep sep s)) = sep # s"
  by (induction s) (auto split: list.splits)

lemma split_sep_no_sep: "w \<in> set (split_sep sep s) \<Longrightarrow> sep \<notin> set w"
  by (induction s arbitrary: w) (auto split: list.splits if_splits)

lemma split_sep_example: "split_sep CHR '','' ''fre,fra'' = [''fre'', ''fra'']"
  by simp

section \<open>Decimal text of integers\<close>

lemma lt10_cases: "d < 10 \<Longrightarrow> d \<in> {0, 1, 2, 3, 4, 5, 6, 7, 8, 9::nat}"
  by auto

lemma digit_val_digit_char: "d < 10 \<Longrightarrow> digit_val (digit_char d) = d"
  using lt10_cases [of d] by (auto simp: digit_val_def digit_char_def)

lemma digit_char_in: "d < 10 \<Longrightarrow> digit_char d \<in> set ''0123456789''"
  using lt10_cases [of d] by (auto simp: digit_char_def)

lemma nat_of_digits_snoc: "nat_of_digits (s @ [c]) = 10 * nat_of_digits s + digit_val c"
  by (simp add: nat_of_digits_def)

lemma nat_of_digits_str_nat: "nat_of_digits (str_nat n) = n"
proof (induction n rule: str_nat.induct)
  case (1 n)
  show ?case
  proof (cases "n < 10")
    case True
    then show ?thesis
      by (subst str_nat.simps) (simp add: nat_of_digits_def digit_val_digit_char)
  next
    case False
    then have "nat_of_digits (str_nat (n div 10)) = n div 10" using 1 by simp
    with False show ?thesis
      by (subst str_nat.simps) (simp add: nat_of_digits_snoc digit_val_digit_char)
  qed
qed

lemma str_nat_inj: "str_nat m = str_nat n \<Longrightarrow> m = n"
  by (metis nat_of_digits_str_nat)

lemma str_nat_digits: "set (str_nat n) \<subseteq> set ''0123456789''"
proof (induction n rule: str_nat.induct)
  case (1 n)
  show ?case
  proof (cases "n < 10")
    case True
    then show ?thesis
      using digit_char_in [of n] by (subst str_nat.simps) simp
  next
    case False
    then have "set (str_nat (n div 10)) \<subseteq> set ''0123456789''" using 1 by simp
    moreover have "digit_char (n mod 10) \<in> set ''0123456789''"
      by (rule digit_char_in) simp
    ultimately show ?thesis using False
      by (subst str_nat.simps) simp
  qed
qed

lemma str_nat_not_Nil: "str_nat n \<noteq> []"
  by (subst str_nat.simps) simp

lemma str_nat_last: "last (str_nat n) \<in> set ''0123456789''"
  using str_nat_digits [of n] str_nat_not_Nil [of n] last_in_set by blast

lemma str_int_inj: "str_int i = str_int j \<Longrightarrow> i = j"
proof -
  assume eq: "str_int i = str_int j"
  have "CHR ''-'' \<notin> set ''0123456789''" by simp
  then have minus: "CHR ''-'' \<notin> set (str_nat n)" for n
    using str_nat_digits [of n] by blast
  have hd: "hd (str_nat n) \<noteq> CHR ''-''" for n
    using minus [of n] str_nat_not_Nil [of n] hd_in_set by metis
  show ?thesis
  proof (cases "i < 0")
    case True
    show ?thesis
    proof (cases "j < 0")
      case True
      with \<open>i < 0\<close> eq have "str_nat (nat (- i)) = str_nat (nat (- j))"
        by (simp add: str_int_def)
      then have "nat (- i) = nat (- j)" by (rule str_nat_inj)
      with True \<open>i < 0\<close> show ?thesis by simp
    next
      case False
      with \<open>i < 0\<close> eq have "CHR ''-'' # str_nat (nat (- i)) = str_nat (nat j)"
        by (simp add: str_int_def)
      then have "hd (str_nat (nat j)) = CHR ''-''" by (metis list.sel(1))
      with hd show ?thesis by blast
    qed
  next
    case False
    show ?thesis
    proof (cases "j < 0")
      case True
      with False eq have "str_nat (nat i) = CHR ''-'' # str_nat (nat (- j))"
        by (simp add: str_int_def)
      then have "hd (str_nat (nat i)) = CHR ''-''" by (metis list.sel(1))
      with hd show ?thesis by blast
    next
      case False
      with \<open>\<not> i < 0\<close> eq have "str_nat (nat i) = str_nat (nat j)"
        by (simp add: str_int_def)
      then have "nat i = nat j" by (rule str_nat_inj)
      with False \<open>\<not> i < 0\<close> show ?thesis by simp
    qed
  qed
qed

lemma str_int_no_dot: "CHR ''.'' \<notin> set (str_int i)"
proof -
  have "CHR ''.'' \<notin> set ''0123456789''" by simp
  then have "CHR ''.'' \<notin> set (str_nat n)" for n
    using str_nat_digits [of n] by blast
  then show ?thesis by (simp add: str_int_def)
qed

lemma str_int_not_Nil: "str_int i \<noteq> []"
  by (simp add: str_int_def str_nat_not_Nil)

lemma str_int_last: "last (str_int i) \<in> set ''0123456789''"
  using str_nat_last [of "nat i"] str_nat_last [of "nat (- i)"] str_nat_not_Nil
  by (simp add: str_int_def)

text \<open>The text after the last dot decides.\<close>

lemma after_last_sep:
  assumes "xs @ c # ys = xs' @ c # ys'" and "c \<notin> set ys" and "c \<notin> set ys'"
  shows "ys = ys'"
proof -
  have "takeWhile (\<lambda>x. x \<noteq> c) (rev (xs @ c # ys)) = rev ys"
    using assms(2) by (auto simp: takeWhile_append1 takeWhile_tail)
  moreover have "takeWhile (\<lambda>x. x \<noteq> c) (rev (xs' @ c # ys')) = rev ys'"
    using assms(3) by (auto simp: takeWhile_append1 takeWhile_tail)
  ultimately have "rev ys = rev ys'" using assms(1) by simp
  then show ?thesis by simp
qed

section \<open>The stream loop\<close>

lemma try_bind_Inr:
  "try_bind r f = Inr y \<longleftrightarrow> (\<exists>x. r = Inr x \<and> f x = Inr y)"
  by (cases r) (simp_all add: try_bind_def)

lemma select_stream_Extract:
  assumes "select_stream a codec_name lang title is_forced = Inr (Extract l, ms)"
  shows "\<not> scan_only a \<and> codec_name \<notin> set (map JStr unsupported_codec) \<and>
         (is_forced \<longrightarrow> get_forced a) \<and> lang = JStr l \<and>
         (l = ''unset'' \<or> l \<in> set (split_sep CHR '','' (language a))) \<and>
         (\<exists>t. py_lower title = Inr t \<and> (str_in ''sdh'' t \<longrightarrow> get_sdh a))"
  using assms unfolding select_stream_def try_bind_def
  by (auto split: if_splits sum.splits jvalue.splits)

lemma examine_stream_Some:
  assumes "examine_stream a file_path n i pr stream = (Inr (Some d), m)"
  shows "\<exists>index codec_name forced title ms.
           fst d = i \<and>
           py_get stream ''index'' (JStr ''unknown'') = Inr index \<and>
           py_get stream ''codec_name'' (JStr ''unknown'') = Inr codec_name \<and>
           stream_tags stream = Inr (forced, JStr (fst (snd d)), title, snd (snd d)) \<and>
           select_stream a codec_name (JStr (fst (snd d))) title (snd (snd d)) =
             Inr (Extract (fst (snd d)), ms)"
proof -
  from assms obtain index codec_name where
    g1: "py_get stream ''index'' (JStr ''unknown'') = Inr index" and
    g2: "py_get stream ''codec_name'' (JStr ''unknown'') = Inr codec_name"
    unfolding examine_stream_def try_bind_def
    by (auto split: sum.splits)
  from assms g1 g2 obtain forced lang title is_forced where
    t: "stream_tags stream = Inr (forced, lang, title, is_forced)"
    unfolding examine_stream_def try_bind_def Let_def
    by (auto split: sum.splits)
  from assms g1 g2 t obtain v ms where
    s: "select_stream a codec_name lang title is_forced = Inr (v, ms)"
    unfolding examine_stream_def try_bind_def Let_def
    by (auto split: sum.splits)
  from assms g1 g2 t s obtain l where v: "v = Extract l" and d: "d = (i, l, is_forced)"
    unfolding examine_stream_def try_bind_def Let_def
    by (auto split: sum.splits verdict.splits)
  from s v have "lang = JStr l" using select_stream_Extract by blast
  with g1 g2 t s v d show ?thesis by auto
qed

lemma examine_stream_fst:
  "examine_stream a file_path n i pr stream = (Inr (Some d), m) \<Longrightarrow> fst d = i"
  using examine_stream_Some by blast

lemma examine_streams_origin:
  assumes "examine_streams a file_path n ss k pr acc = (Inr ds, ms)" and "d \<in> set ds"
  shows "d \<in> set acc \<or>
         (\<exists>j < length ss. \<exists>pr' m.
            examine_stream a file_path n (k + 1 + int j) pr' (ss ! j) = (Inr (Some d), m))"
  using assms
proof (induction ss arbitrary: k pr acc ms)
  case Nil
  then show ?case by simp
next
  case (Cons s ss)
  from Cons.prems(1) obtain d0 m0 where
    one: "examine_stream a file_path n (k + 1) pr s = (Inr d0, m0)"
    by (auto split: prod.splits sum.splits)
  with Cons.prems(1) obtain ms' where
    rest: "examine_streams a file_path n ss (k + 1) True
             (acc @ (case d0 of None \<Rightarrow> [] | Some x \<Rightarrow> [x])) = (Inr ds, ms')"
    by (auto split: prod.splits sum.splits)
  from Cons.IH [OF rest Cons.prems(2)]
  consider "d \<in> set acc" | "d0 = Some d"
    | j pr' m where "j < length ss"
        "examine_stream a file_path n (k + 1 + 1 + int j) pr' (ss ! j) = (Inr (Some d), m)"
    by (auto split: option.splits)
  then show ?case
  proof cases
    case 1
    then show ?thesis by simp
  next
    case 2
    with one have "examine_stream a file_path n (k + 1 + int 0) pr ((s # ss) ! 0)
                     = (Inr (Some d), m0)" by simp
    then show ?thesis by (metis length_greater_0_conv list.distinct(1))
  next
    case 3
    then have "Suc j < length (s # ss)" and
      "examine_stream a file_path n (k + 1 + int (Suc j)) pr' ((s # ss) ! Suc j)
         = (Inr (Some d), m)"
      by (simp_all add: add.commute add.left_commute)
    then show ?thesis by blast
  qed
qed

lemma examine_streams_ordinals:
  assumes "examine_streams a file_path n ss k pr acc = (Inr ds, ms)"
  shows "\<exists>new. ds = acc @ new \<and> distinct (map fst new) \<and>
               (\<forall>d \<in> set new. k < fst d \<and> fst d \<le> k + int (length ss))"
  using assms
proof (induction ss arbitrary: k pr acc ms)
  case Nil
  then show ?case by simp
next
  case (Cons s ss)
  from Cons.prems obtain d0 m0 where
    one: "examine_stream a file_path n (k + 1) pr s = (Inr d0, m0)"
    by (auto split: prod.splits sum.splits)
  with Cons.prems obtain ms' where
    rest: "examine_streams a file_path n ss (k + 1) True
             (acc @ (case d0 of None \<Rightarrow> [] | Some x \<Rightarrow> [x])) = (Inr ds, ms')"
    by (auto split: prod.splits sum.splits)
  from Cons.IH [OF rest] obtain new where
    ds: "ds = (acc @ (case d0 of None \<Rightarrow> [] | Some x \<Rightarrow> [x])) @ new" and
    dist: "distinct (map fst new)" and
    rng: "\<forall>d \<in> set new. k + 1 < fst d \<and> fst d \<le> k + 1 + int (length ss)"
    by blast
  show ?case
  proof (cases d0)
    case None
    with ds dist rng show ?thesis by force
  next
    case (Some x)
    with one have fx: "fst x = k + 1" using examine_stream_fst by blast
    have "ds = acc @ (x # new)" using ds Some by simp
    moreover have "distinct (map fst (x # new))" using dist rng fx by force
    moreover have "\<forall>d \<in> set (x # new). k < fst d \<and> fst d \<le> k + int (length (s # ss))"
      using rng fx by force
    ultimately show ?thesis by blast
  qed
qed

text \<open>The stream at position \<open>j\<close> is examined with the ordinal \<open>j\<close>.\<close>

lemma examine_streams_each:
  assumes "examine_streams a file_path n ss k pr acc = (Inr ds, ms)" and "j < length ss"
  shows "\<exists>pr' r m. examine_stream a file_path n (k + 1 + int j) pr' (ss ! j) = (Inr r, m)"
  using assms
proof (induction ss arbitrary: k pr acc ms j)
  case Nil
  then show ?case by simp
next
  case (Cons s ss)
  from Cons.prems(1) obtain d0 m0 where
    one: "examine_stream a file_path n (k + 1) pr s = (Inr d0, m0)"
    by (auto split: prod.splits sum.splits)
  with Cons.prems(1) obtain ms' where
    rest: "examine_streams a file_path n ss (k + 1) True
             (acc @ (case d0 of None \<Rightarrow> [] | Some x \<Rightarrow> [x])) = (Inr ds, ms')"
    by (auto split: prod.splits sum.splits)
  show ?case
  proof (cases j)
    case 0
    with one show ?thesis by auto
  next
    case (Suc j')
    with Cons.prems(2) have "j' < length ss" by simp
    from Cons.IH [OF rest this] obtain pr' r m where
      "examine_stream a file_path n (k + 1 + 1 + int j') pr' (ss ! j') = (Inr r, m)"
      by blast
    with Suc show ?thesis by (auto simp: add.commute add.left_commute)
  qed
qed

section \<open>Names of the subtitle files\<close>

lemma splitext_append: "fst (splitext p) @ snd (splitext p) = p"
  by (simp add: splitext_def Let_def)

lemma final_name_single:
  "n = 1 \<Longrightarrow> final_name file_path n d = fst (splitext file_path) @ ''.srt''"
  by (simp add: final_name_def split: prod.splits)

lemma final_name_multi:
  "n \<noteq> 1 \<Longrightarrow> final_name file_path n (i, l, f) =
     fst (splitext file_path) @ ''.'' @ l @ ''.'' @ str_int i @
       (if f then ''.forced'' else []) @ ''.srt''"
  by (simp add: final_name_def)

lemma dotted_ordinal_eq:
  assumes "l @ CHR ''.'' # str_int i = l' @ CHR ''.'' # str_int j"
  shows "i = j"
proof -
  have "str_int i = str_int j"
    by (rule after_last_sep [OF assms str_int_no_dot str_int_no_dot])
  then show ?thesis by (rule str_int_inj)
qed

lemma dotted_ordinal_forced_neq:
  "l @ CHR ''.'' # str_int i \<noteq> l' @ CHR ''.'' # str_int j @ ''.forced''"
proof
  assume eq: "l @ CHR ''.'' # str_int i = l' @ CHR ''.'' # str_int j @ ''.forced''"
  have "last (l @ CHR ''.'' # str_int i) = last (str_int i)"
    using str_int_not_Nil by simp
  moreover have "last (l' @ CHR ''.'' # str_int j @ ''.forced'') = CHR ''d''"
    by simp
  ultimately have "last (str_int i) = CHR ''d''" using eq by simp
  moreover have "CHR ''d'' \<notin> set ''0123456789''" by simp
  ultimately show False using str_int_last [of i] by metis
qed

lemma final_name_inj:
  assumes "n \<noteq> 1" and "final_name file_path n (i, l, f) = final_name file_path n (j, l', f')"
  shows "i = j"
proof -
  let ?F = "\<lambda>b. if b then ''.forced'' else []"
  from assms have
    "(l @ CHR ''.'' # str_int i @ ?F f) @ ''.srt'' = (l' @ CHR ''.'' # str_int j @ ?F f') @ ''.srt''"
    by (simp add: final_name_multi)
  then have eq: "l @ CHR ''.'' # str_int i @ ?F f = l' @ CHR ''.'' # str_int j @ ?F f'"
    by (simp only: append_same_eq)
  show ?thesis
  proof (cases f)
    case True
    note f = this
    show ?thesis
    proof (cases f')
      case True
      with f eq have "(l @ CHR ''.'' # str_int i) @ ''.forced'' = (l' @ CHR ''.'' # str_int j) @ ''.forced''"
        by simp
      then have "l @ CHR ''.'' # str_int i = l' @ CHR ''.'' # str_int j"
        by (simp only: append_same_eq)
      then show ?thesis by (rule dotted_ordinal_eq)
    next
      case False
      with f eq have "l' @ CHR ''.'' # str_int j = l @ CHR ''.'' # str_int i @ ''.forced''"
        by simp
      then show ?thesis using dotted_ordinal_forced_neq by blast
    qed
  next
    case False
    note f = this
    show ?thesis
    proof (cases f')
      case True
      with f eq have "l @ CHR ''.'' # str_int i = l' @ CHR ''.'' # str_int j @ ''.forced''"
        by simp
      then show ?thesis using dotted_ordinal_forced_neq by blast
    next
      case False
      with f eq have "l @ CHR ''.'' # str_int i = l' @ CHR ''.'' # str_int j"
        by simp
      then show ?thesis by (rule dotted_ordinal_eq)
    qed
  qed
qed

lemma final_name_distinct:
  assumes "n \<noteq> 1" and "distinct (map fst ds)"
  shows "distinct (map (final_name file_path n) ds)"
proof -
  have "inj_on (final_name file_path n) (set ds)"
  proof (rule inj_onI)
    fix x y
    assume x: "x \<in> set ds" and y: "y \<in> set ds"
      and eq: "final_name file_path n x = final_name file_path n y"
    obtain i l f where xd: "x = (i, l, f)" by (cases x) auto
    obtain j l' f' where yd: "y = (j, l', f')" by (cases y) auto
    from eq xd yd assms(1) have "i = j" using final_name_inj by blast
    then have "fst x = fst y" using xd yd by simp
    with assms(2) x y show "x = y" by (meson distinct_map inj_onD)
  qed
  moreover have "distinct ds" using assms(2) by (simp add: distinct_map)
  ultimately show ?thesis by (simp add: distinct_map)
qed

text \<open>
  Claim C3. With exactly one decision for a file the name is the source path without its
  extension followed by \<open>.srt\<close>, whatever the language, ordinal and forced flag; with two
  or more decisions each name is \<open>base.language.ordinal[.forced].srt\<close>, the
  \<open>.forced\<close> part present exactly when the decision is forced, and the names of the
  decisions of one file are pairwise distinct.
\<close>

theorem output_names:
  assumes "examine_streams a file_path n streams (- 1) False [] = (Inr ds, ms)"
  shows "fst (splitext file_path) @ snd (splitext file_path) = file_path \<and>
         (length ds = 1 \<longrightarrow>
            (\<forall>d \<in> set ds. final_name file_path (length ds) d
                             = fst (splitext file_path) @ ''.srt'')) \<and>
         (2 \<le> length ds \<longrightarrow>
            (\<forall>i l f. (i, l, f) \<in> set ds \<longrightarrow>
               final_name file_path (length ds) (i, l, f) =
                 fst (splitext file_path) @ ''.'' @ l @ ''.'' @ str_int i @
                   (if f then ''.forced'' else []) @ ''.srt'') \<and>
            distinct (map (final_name file_path (length ds)) ds))"
proof (intro conjI impI allI ballI)
  show "fst (splitext file_path) @ snd (splitext file_path) = file_path"
    by (rule splitext_append)
next
  fix d
  assume "length ds = 1"
  then show "final_name file_path (length ds) d = fst (splitext file_path) @ ''.srt''"
    by (rule final_name_single)
next
  fix i l f
  assume "2 \<le> length ds"
  then have "length ds \<noteq> 1" by simp
  then show "final_name file_path (length ds) (i, l, f) =
               fst (splitext file_path) @ ''.'' @ l @ ''.'' @ str_int i @
                 (if f then ''.forced'' else []) @ ''.srt''"
    by (rule final_name_multi)
next
  assume "2 \<le> length ds"
  then have "length ds \<noteq> 1" by simp
  moreover from examine_streams_ordinals [OF assms] have "distinct (map fst ds)" by auto
  ultimately show "distinct (map (final_name file_path (length ds)) ds)"
    by (rule final_name_distinct)
qed

section \<open>Forced flag, language filter, ordinals\<close>

lemma stream_tags_Inr:
  assumes "stream_tags stream = Inr (forced, lang, title, is_forced)"
  shows "\<exists>disposition tags.
           py_get stream ''disposition'' (JObj []) = Inr disposition \<and>
           py_get disposition ''forced'' (JStr ''unset'') = Inr forced \<and>
           py_get stream ''tags'' (JObj []) = Inr tags \<and>
           py_get tags ''language'' (JStr ''unset'') = Inr lang \<and>
           py_get tags ''title'' (JStr ''unset'') = Inr title \<and>
           (if py_eq_int forced 1 then is_forced
            else \<exists>t. py_lower title = Inr t \<and> is_forced = str_in ''forc'' t)"
  using assms unfolding stream_tags_def try_bind_def
  by (auto split: sum.splits if_splits)

lemma py_lower_Inr: "py_lower v = Inr t \<longleftrightarrow> (\<exists>s. v = JStr s \<and> t = lower s)"
  by (cases v) auto

lemma lower_forc: "lower ''forc'' = ''forc''"
  by (simp add: lower_def lower_char_def)

text \<open>
  Claim C1. For a stream whose fields are read without an exception, \<open>is_forced\<close> holds
  exactly when the \<open>forced\<close> entry of the disposition equals 1 or some part of the title
  tag is \<open>forc\<close> up to letter case; when the title tag is absent the title is
  \<open>unset\<close> and \<open>is_forced\<close> is decided by the disposition flag alone.
\<close>

theorem is_forced_iff:
  assumes "stream_tags stream = Inr (forced, lang, title, is_forced)"
  shows "(\<exists>disposition tags.
            py_get stream ''disposition'' (JObj []) = Inr disposition \<and>
            py_get disposition ''forced'' (JStr ''unset'') = Inr forced \<and>
            py_get stream ''tags'' (JObj []) = Inr tags \<and>
            py_get tags ''title'' (JStr ''unset'') = Inr title) \<and>
         (is_forced \<longleftrightarrow>
            py_eq_int forced 1 \<or>
            (\<exists>t ps ms ss. title = JStr t \<and> t = ps @ ms @ ss \<and> lower ms = lower ''forc'')) \<and>
         (\<forall>kvs. py_get stream ''tags'' (JObj []) = Inr (JObj kvs) \<and>
                map_of kvs ''title'' = None \<longrightarrow>
                title = JStr ''unset'' \<and> (is_forced \<longleftrightarrow> py_eq_int forced 1))"
proof -
  from stream_tags_Inr [OF assms] obtain disposition tags where
    d: "py_get stream ''disposition'' (JObj []) = Inr disposition" and
    f: "py_get disposition ''forced'' (JStr ''unset'') = Inr forced" and
    t: "py_get stream ''tags'' (JObj []) = Inr tags" and
    ti: "py_get tags ''title'' (JStr ''unset'') = Inr title" and
    isf: "if py_eq_int forced 1 then is_forced
          else \<exists>t. py_lower title = Inr t \<and> is_forced = str_in ''forc'' t"
    by blast
  have iff: "is_forced \<longleftrightarrow>
               py_eq_int forced 1 \<or>
               (\<exists>t ps ms ss. title = JStr t \<and> t = ps @ ms @ ss \<and> lower ms = lower ''forc'')"
  proof (cases "py_eq_int forced 1")
    case True
    with isf show ?thesis by simp
  next
    case False
    with isf obtain s where s: "title = JStr s" and "is_forced = str_in ''forc'' (lower s)"
      by (auto simp: py_lower_Inr)
    then have "is_forced \<longleftrightarrow> (\<exists>ps ms ss. s = ps @ ms @ ss \<and> lower ms = ''forc'')"
      by (simp only: str_in_lower_iff)
    with False s show ?thesis by (simp add: lower_forc)
  qed
  have unset: "title = JStr ''unset'' \<and> (is_forced \<longleftrightarrow> py_eq_int forced 1)"
    if "py_get stream ''tags'' (JObj []) = Inr (JObj kvs)" and "map_of kvs ''title'' = None"
    for kvs
  proof -
    from that t have "tags = JObj kvs" by simp
    with ti that(2) have title: "title = JStr ''unset''" by simp
    with isf have "is_forced \<longleftrightarrow> py_eq_int forced 1"
      using unset_no_forc by (auto split: if_splits)
    with title show ?thesis by simp
  qed
  from d f t ti iff unset show ?thesis by blast
qed

text \<open>
  Claim C2. A stream that reaches the language step (no scan only, codec not unsupported,
  not dropped as forced) is ignored for its language exactly when the language tag differs
  from \<open>unset\<close> and is not one of the comma separated wanted languages; a stream whose
  language is \<open>unset\<close> is never ignored for its language, under any options.
\<close>

theorem language_filter:
  "(\<not> scan_only a \<and> codec_name \<notin> set (map JStr unsupported_codec) \<and>
     (is_forced \<longrightarrow> get_forced a) \<longrightarrow>
     ((\<exists>ms. select_stream a codec_name lang title is_forced = Inr (Ignore_language, ms)) \<longleftrightarrow>
        lang \<noteq> JStr ''unset'' \<and>
        lang \<notin> set (map JStr (split_sep CHR '','' (language a))))) \<and>
   select_stream a codec_name (JStr ''unset'') title is_forced \<noteq> Inr (Ignore_language, ms')"
  unfolding select_stream_def try_bind_def
  by (auto split: sum.splits jvalue.splits)

text \<open>
  Claim C10. When a stream without a language tag is selected and the file has two or more
  decisions, the language part of the file name is the literal \<open>unset\<close>.
\<close>

theorem unset_language_name:
  assumes "examine_stream a file_path n i pr stream = (Inr (Some d), m)"
      and "py_get stream ''tags'' (JObj []) = Inr (JObj kvs)"
      and "map_of kvs ''language'' = None"
      and "k \<noteq> 1"
  shows "final_name file_path k d =
           fst (splitext file_path) @ ''.unset.'' @ str_int i @
             (if snd (snd d) then ''.forced'' else []) @ ''.srt''"
proof -
  from examine_stream_Some [OF assms(1)] obtain forced title where
    i: "fst d = i" and
    t: "stream_tags stream = Inr (forced, JStr (fst (snd d)), title, snd (snd d))"
    by blast
  from stream_tags_Inr [OF t] assms(2) have
    "py_get (JObj kvs) ''language'' (JStr ''unset'') = Inr (JStr (fst (snd d)))"
    by auto
  with assms(3) have "fst (snd d) = ''unset''" by simp
  with i have "d = (i, ''unset'', snd (snd d))" by (metis prod.collapse)
  then have "final_name file_path k d = final_name file_path k (i, ''unset'', snd (snd d))"
    by simp
  also have "\<dots> = fst (splitext file_path) @ ''.'' @ ''unset'' @ ''.'' @ str_int i @
                    (if snd (snd d) then ''.forced'' else []) @ ''.srt''"
    using assms(4) by (rule final_name_multi)
  finally show ?thesis by simp
qed

lemma keep_subtitles_filter:
  "keep_subtitles xs = Inr ss \<Longrightarrow>
   ss = filter (\<lambda>s. py_get s ''codec_type'' (JStr ''unknown'') = Inr (JStr ''subtitle'')) xs"
proof (induction xs arbitrary: ss)
  case Nil
  then show ?case by simp
next
  case (Cons x xs)
  from Cons.prems obtain t rest where
    t: "py_get x ''codec_type'' (JStr ''unknown'') = Inr t" and
    r: "keep_subtitles xs = Inr rest" and
    ss: "ss = (if t = JStr ''subtitle'' then x # rest else rest)"
    by (auto simp: try_bind_Inr)
  from Cons.IH [OF r] t ss show ?case by simp
qed

lemma extract_stream_calls:
  "calls (snd (extract_stream ex a file_path n d st)) =
     (if path_exists st (final_name file_path n d) then calls st
      else calls st @ [[''ffmpeg'', ''-hide_banner'', ''-loglevel'', ''error'', ''-n'',
                        ''-i'', file_path, ''-map'', ''0:s:'' @ str_int (fst d),
                        final_name file_path n d]])"
  unfolding extract_stream_def ffsubextract_def ffmpeg_command_def subprocess_run_def Let_def
  by (auto simp: prints_def path_exists_def split: prod.splits sum.splits proc.splits)

lemma examine_streams_position:
  assumes "examine_streams a file_path n streams (- 1) False [] = (Inr ds, ms)"
      and "d \<in> set ds"
  shows "0 \<le> fst d \<and> nat (fst d) < length streams \<and>
         (\<exists>pr m. examine_stream a file_path n (fst d) pr (streams ! nat (fst d))
                  = (Inr (Some d), m))"
proof -
  from examine_streams_origin [OF assms] obtain j pr m where
    j: "j < length streams" and
    e: "examine_stream a file_path n (- 1 + 1 + int j) pr (streams ! j) = (Inr (Some d), m)"
    by auto
  from e have "fst d = int j" using examine_stream_fst by fastforce
  with j e show ?thesis by auto
qed

lemma examine_stream_index_free:
  "fst (examine_stream a file_path n i pr (JObj ((''index'', x) # kvs))) =
   fst (examine_stream a file_path n i pr (JObj kvs))"
  unfolding examine_stream_def stream_tags_def try_bind_def Let_def
  by (simp split: sum.splits prod.splits)

text \<open>
  Claim C5. The examined streams are the subtitle typed streams in probe order; the stream at
  position \<open>j\<close> of that list is examined with the ordinal \<open>j\<close>, the ordinal of a
  decision is the 0-based position of its stream, the same whatever the \<open>index\<close> entry of
  the stream says, and the extractor is started with the selector \<open>0:s:ordinal\<close>.
\<close>

theorem subtitle_ordinal:
  assumes "keep_subtitles all_streams = Inr streams"
      and "examine_streams a file_path n streams (- 1) False [] = (Inr ds, ms)"
      and "d \<in> set ds"
  shows "streams = filter (\<lambda>s. py_get s ''codec_type'' (JStr ''unknown'')
                                 = Inr (JStr ''subtitle'')) all_streams \<and>
         (\<forall>j < length streams. \<exists>pr r m.
            examine_stream a file_path n (int j) pr (streams ! j) = (Inr r, m)) \<and>
         0 \<le> fst d \<and> nat (fst d) < length streams \<and>
         (\<exists>pr m. examine_stream a file_path n (fst d) pr (streams ! nat (fst d))
                  = (Inr (Some d), m)) \<and>
         (\<forall>i pr x kvs. fst (examine_stream a file_path n i pr (JObj ((''index'', x) # kvs)))
                        = fst (examine_stream a file_path n i pr (JObj kvs))) \<and>
         calls (snd (extract_stream ex a file_path k d st)) =
           (if path_exists st (final_name file_path k d) then calls st
            else calls st @ [[''ffmpeg'', ''-hide_banner'', ''-loglevel'', ''error'', ''-n'',
                              ''-i'', file_path, ''-map'', ''0:s:'' @ str_int (fst d),
                              final_name file_path k d]])"
proof -
  have "\<exists>pr r m. examine_stream a file_path n (int j) pr (streams ! j) = (Inr r, m)"
    if "j < length streams" for j
    using examine_streams_each [OF assms(2) that] by simp
  then show ?thesis
    using keep_subtitles_filter [OF assms(1)] examine_streams_position [OF assms(2,3)]
      examine_stream_index_free extract_stream_calls
    by blast
qed

text \<open>
  Claim C6. A stream whose codec name is \<open>hdmv_pgs_subtitle\<close> or \<open>dvd_subtitle\<close> is
  never among the decisions, whatever its language, forced flag and title and whatever the
  options.
\<close>

theorem unsupported_codec_never_extracted:
  assumes "examine_streams a file_path n streams (- 1) False [] = (Inr ds, ms)"
      and "j < length streams"
      and "py_get (streams ! j) ''codec_name'' (JStr ''unknown'') = Inr (JStr c)"
      and "c \<in> set unsupported_codec"
  shows "int j \<notin> fst ` set ds \<and>
         set unsupported_codec = {''hdmv_pgs_subtitle'', ''dvd_subtitle''}"
proof -
  have "int j \<notin> fst ` set ds"
  proof
    assume "int j \<in> fst ` set ds"
    then obtain d where d: "d \<in> set ds" and fd: "fst d = int j" by auto
    from examine_streams_position [OF assms(1) d] fd obtain pr m where
      "examine_stream a file_path n (int j) pr (streams ! j) = (Inr (Some d), m)"
      by auto
    from examine_stream_Some [OF this] assms(3) obtain title ms' where
      "select_stream a (JStr c) (JStr (fst (snd d))) title (snd (snd d)) =
         Inr (Extract (fst (snd d)), ms')"
      by auto
    from select_stream_Extract [OF this] have "JStr c \<notin> set (map JStr unsupported_codec)"
      by blast
    with assms(4) show False by simp
  qed
  moreover have "set unsupported_codec = {''hdmv_pgs_subtitle'', ''dvd_subtitle''}"
    by (simp add: unsupported_codec_def)
  ultimately show ?thesis by simp
qed

section \<open>Existing destinations\<close>

lemma prints_Nil: "prints st [] = st"
  by (simp add: prints_def)

lemma extract_stream_exists:
  assumes "path_exists st (final_name file_path n d)"
  shows "extract_stream ex a file_path n d st =
           (Inr (), prints st ((if 1 < verbose a then [Msg_filename (final_name file_path n d)] else []) @
                               (if verbose a \<noteq> 0 then [Msg_exists (final_name file_path n d)] else [])))"
  using assms by (auto simp: extract_stream_def prints_def path_exists_def Let_def)

lemma for_each_all_exist:
  assumes "\<forall>d \<in> set ds. path_exists st (final_name file_path n d)"
  shows "\<exists>st'. for_each (extract_stream ex a file_path n) ds st = (Inr (), st') \<and>
               fs st' = fs st \<and> calls st' = calls st"
  using assms
proof (induction ds arbitrary: st)
  case Nil
  then show ?case by simp
next
  case (Cons d ds)
  let ?st1 = "prints st ((if 1 < verbose a then [Msg_filename (final_name file_path n d)] else []) @
                         (if verbose a \<noteq> 0 then [Msg_exists (final_name file_path n d)] else []))"
  from Cons.prems have one: "extract_stream ex a file_path n d st = (Inr (), ?st1)"
    by (simp add: extract_stream_exists)
  have same: "fs ?st1 = fs st" "calls ?st1 = calls st" by (simp_all add: prints_def)
  with Cons.prems have "\<forall>d \<in> set ds. path_exists ?st1 (final_name file_path n d)"
    by (simp add: path_exists_def)
  from Cons.IH [OF this] same one show ?case by simp
qed

text \<open>
  Claim C4, as amended. A decision whose destination already exists starts no extractor and
  leaves the file system unchanged; the \<open>already exists\<close> line is printed only when
  \<open>verbose\<close> is not 0. When every destination exists the whole extraction loop starts no
  process and writes nothing.
\<close>

theorem never_rewrite:
  assumes "\<forall>d \<in> set ds. path_exists st (final_name file_path n d)"
  shows "(\<exists>st'. for_each (extract_stream ex a file_path n) ds st = (Inr (), st') \<and>
                fs st' = fs st \<and> calls st' = calls st) \<and>
         (\<forall>d \<in> set ds. \<exists>st'.
            extract_stream ex a file_path n d st = (Inr (), st') \<and>
            fs st' = fs st \<and> calls st' = calls st \<and>
            out st' = out st @
              (if 1 < verbose a then [Msg_filename (final_name file_path n d)] else []) @
              (if verbose a \<noteq> 0 then [Msg_exists (final_name file_path n d)] else []))"
proof
  show "\<exists>st'. for_each (extract_stream ex a file_path n) ds st = (Inr (), st') \<and>
              fs st' = fs st \<and> calls st' = calls st"
    using assms by (rule for_each_all_exist)
next
  show "\<forall>d \<in> set ds. \<exists>st'.
            extract_stream ex a file_path n d st = (Inr (), st') \<and>
            fs st' = fs st \<and> calls st' = calls st \<and>
            out st' = out st @
              (if 1 < verbose a then [Msg_filename (final_name file_path n d)] else []) @
              (if verbose a \<noteq> 0 then [Msg_exists (final_name file_path n d)] else [])"
  proof
    fix d
    assume "d \<in> set ds"
    with assms have "path_exists st (final_name file_path n d)" by blast
    then show "\<exists>st'.
            extract_stream ex a file_path n d st = (Inr (), st') \<and>
            fs st' = fs st \<and> calls st' = calls st \<and>
            out st' = out st @
              (if 1 < verbose a then [Msg_filename (final_name file_path n d)] else []) @
              (if verbose a \<noteq> 0 then [Msg_exists (final_name file_path n d)] else [])"
      by (simp add: extract_stream_exists prints_def)
  qed
qed

section \<open>Failures and the exit status\<close>

lemma ffprobe_soft_failure:
  assumes "fst (ex (ffprobe_command file_path) (fs st)) = Undecodable \<or>
           (\<exists>rc so se. fst (ex (ffprobe_command file_path) (fs st)) = Exited rc so se \<and> rc \<noteq> 0)"
  shows "\<exists>e st1. ffprobe ex file_path st =
                   (Inr \<lparr>return_code = 1212, json = [], error = ExnStr e\<rparr>, st1)"
  using assms unfolding ffprobe_def subprocess_run_def Let_def
  by (auto split: prod.splits proc.splits)

lemma process_movie_supported:
  assumes "root \<noteq> []" and "snd (splitext name) \<in> set supported_extensions"
  shows "process_movie ex loads a (Some root, name) st =
           get_ffmpeg_track_id ex loads a (path_join root name) st"
  using assms by (simp add: process_movie_def)

text \<open>
  Claim C8, as amended. When the probe process exits with a status other than 0 or prints
  text that cannot be decoded, \<open>ffprobe\<close> returns the status 1212 with empty JSON; the
  caller prints the diagnostic, returns without calling \<open>json.loads\<close> (the result is the
  same for every \<open>loads\<close>), and the loop over the files goes on with the next one.
\<close>

theorem probe_failure_skips_file:
  assumes "fst (ex (ffprobe_command file_path) (fs st)) = Undecodable \<or>
           (\<exists>rc so se. fst (ex (ffprobe_command file_path) (fs st)) = Exited rc so se \<and> rc \<noteq> 0)"
  shows "\<exists>r st1.
           ffprobe ex file_path st = (Inr r, st1) \<and> return_code r \<noteq> 0 \<and> json r = [] \<and>
           get_ffmpeg_track_id ex loads a file_path st =
             (Inr (), prints st1 [Msg_error_probe file_path, Msg_probe_stderr (error r)]) \<and>
           (\<forall>root name rest.
              root \<noteq> [] \<and> snd (splitext name) \<in> set supported_extensions \<and>
              file_path = path_join root name \<longrightarrow>
              for_each (process_movie ex loads a) ((Some root, name) # rest) st =
              for_each (process_movie ex loads a) rest
                (prints st1 [Msg_error_probe file_path, Msg_probe_stderr (error r)]))"
proof -
  from assms ffprobe_soft_failure [of ex file_path st] obtain e st1 where
    p: "ffprobe ex file_path st =
          (Inr \<lparr>return_code = 1212, json = [], error = ExnStr e\<rparr>, st1)"
    by blast
  let ?r = "\<lparr>return_code = 1212, json = [], error = ExnStr e\<rparr>"
  let ?st2 = "prints st1 [Msg_error_probe file_path, Msg_probe_stderr (error ?r)]"
  from p have g: "get_ffmpeg_track_id ex loads a file_path st = (Inr (), ?st2)"
    by (simp add: get_ffmpeg_track_id_def)
  have "for_each (process_movie ex loads a) ((Some root, name) # rest) st =
        for_each (process_movie ex loads a) rest ?st2"
    if "root \<noteq> []" and "snd (splitext name) \<in> set supported_extensions"
      and "file_path = path_join root name" for root name rest
    using that g by (simp add: process_movie_supported)
  with p g show ?thesis by auto
qed

text \<open>When every subprocess starts, nothing is raised by the two invokers.\<close>

lemma ffprobe_launched:
  assumes "\<forall>cmd f n. fst (ex cmd f) \<noteq> NotLaunched n"
  shows "\<exists>r st1. ffprobe ex file_path st = (Inr r, st1) \<and>
                  (return_code r = 0 \<longrightarrow>
                     (\<exists>se. ex (ffprobe_command file_path) (fs st) = (Exited 0 (json r) se, fs st1)))"
proof (cases "ex (ffprobe_command file_path) (fs st)")
  case (Pair p f')
  with assms have "\<And>n. p \<noteq> NotLaunched n" by (metis fst_conv)
  with Pair show ?thesis
    unfolding ffprobe_def subprocess_run_def Let_def
    by (cases p) auto
qed

lemma ffsubextract_launched:
  assumes "\<forall>cmd f n. fst (ex cmd f) \<noteq> NotLaunched n"
  shows "\<exists>r st1. ffsubextract ex file_path i name st = (Inr r, st1)"
proof (cases "ex (ffmpeg_command file_path i name) (fs st)")
  case (Pair p f')
  with assms have "\<And>n. p \<noteq> NotLaunched n" by (metis fst_conv)
  with Pair show ?thesis
    unfolding ffsubextract_def subprocess_run_def Let_def
    by (cases p) auto
qed

lemma extract_stream_launched:
  assumes "\<forall>cmd f n. fst (ex cmd f) \<noteq> NotLaunched n"
  shows "\<exists>st1. extract_stream ex a file_path n d st = (Inr (), st1)"
proof -
  let ?name = "final_name file_path n d"
  let ?st1 = "if 1 < verbose a then prints st [Msg_filename ?name] else st"
  from ffsubextract_launched [OF assms] obtain r st2 where
    "ffsubextract ex file_path (fst d) ?name ?st1 = (Inr r, st2)" by blast
  then show ?thesis
    unfolding extract_stream_def Let_def by (cases r) (auto split: if_splits)
qed

lemma for_each_no_raise:
  assumes "\<And>x st. \<exists>st1. body x st = (Inr (), st1)"
  shows "\<exists>st1. for_each body xs st = (Inr (), st1)"
proof (induction xs arbitrary: st)
  case Nil
  then show ?case by simp
next
  case (Cons x xs)
  from assms obtain st1 where "body x st = (Inr (), st1)" by blast
  with Cons.IH [of st1] show ?case by simp
qed

lemma get_ffmpeg_track_id_no_raise:
  assumes launch: "\<forall>cmd f n. fst (ex cmd f) \<noteq> NotLaunched n"
      and shape: "\<forall>file_path f so se f'.
                    ex (ffprobe_command file_path) f = (Exited 0 so se, f') \<longrightarrow>
                    (\<exists>streams ds ms.
                       try_bind (loads so) subtitle_streams = Inr streams \<and>
                       examine_streams a file_path (length streams) streams (- 1) False []
                         = (Inr ds, ms))"
  shows "\<exists>st1. get_ffmpeg_track_id ex loads a file_path st = (Inr (), st1)"
proof -
  from ffprobe_launched [OF launch] obtain r st1 where
    p: "ffprobe ex file_path st = (Inr r, st1)" and
    ok: "return_code r = 0 \<longrightarrow>
           (\<exists>se. ex (ffprobe_command file_path) (fs st) = (Exited 0 (json r) se, fs st1))"
    by blast
  show ?thesis
  proof (cases "return_code r = 0")
    case False
    with p show ?thesis by (simp add: get_ffmpeg_track_id_def)
  next
    case True
    with ok shape obtain streams ds ms where
      s: "try_bind (loads (json r)) subtitle_streams = Inr streams" and
      e: "examine_streams a file_path (length streams) streams (- 1) False [] = (Inr ds, ms)"
      by blast
    from for_each_no_raise [of "extract_stream ex a file_path (length ds)" ds "prints st1 ms"]
      extract_stream_launched [OF launch]
    obtain st2 where
      "for_each (extract_stream ex a file_path (length ds)) ds (prints st1 ms) = (Inr (), st2)"
      by blast
    with p True s e show ?thesis by (simp add: get_ffmpeg_track_id_def)
  qed
qed

lemma process_movie_no_raise:
  assumes "\<And>file_path st. \<exists>st1. get_ffmpeg_track_id ex loads a file_path st = (Inr (), st1)"
  shows "\<exists>st1. process_movie ex loads a rn st = (Inr (), st1)"
  using assms unfolding process_movie_def
  by (auto split: prod.splits option.splits)

text \<open>
  Claim C9, as amended. A run with a file list ends with status 0 whenever every subprocess
  can be started and the report of every probe that exits with 0 is read and examined
  without an exception (nothing is asked of what the extractor prints): probes and
  extractions that exit with another status, or print undecodable text, are reported and do
  not change the status.
\<close>

theorem exit_status_zero:
  assumes "filelist a \<noteq> []"
      and "\<forall>cmd f n. fst (ex cmd f) \<noteq> NotLaunched n"
      and "\<forall>file_path f so se f'.
             ex (ffprobe_command file_path) f = (Exited 0 so se, f') \<longrightarrow>
             (\<exists>streams ds ms.
                try_bind (loads so) subtitle_streams = Inr streams \<and>
                examine_streams a file_path (length streams) streams (- 1) False []
                  = (Inr ds, ms))"
  shows "fst (run_script ex loads glob (Namespace a) st) = 0"
proof -
  have "\<exists>st1. get_ffmpeg_track_id ex loads a file_path st = (Inr (), st1)" for file_path st
    using assms(2,3) by (rule get_ffmpeg_track_id_no_raise)
  then have "\<exists>st1. process_movie ex loads a rn st = (Inr (), st1)" for rn st
    by (rule process_movie_no_raise)
  then have "\<exists>st1. process ex loads glob a st = (Inr (), st1)"
    unfolding process_def by (rule for_each_no_raise)
  with assms(1) show ?thesis
    by (auto simp: run_script_def main_def exit_status_def)
qed

lemma splitext_movie:
  assumes "ext \<in> set supported_extensions"
  shows "fst (splitext (''movie'' @ ext)) = ''movie''"
proof -
  from assms have "ext = ''.mkv'' \<or> ext = ''.mp4'' \<or> ext = ''.mov'' \<or> ext = ''.avi'' \<or>
                   ext = ''.mpg'' \<or> ext = ''.mpeg''"
    by (simp add: supported_extensions_def)
  then show ?thesis
    by (elim disjE) (simp_all add: splitext_def)
qed

text \<open>
  Claim C7, as amended. For the streams \<open>fra\<close> and \<open>eng\<close>, both \<open>subrip\<close> and not
  forced, and the wanted language \<open>fra\<close>, there is exactly one decision, ordinal 0 with
  language \<open>fra\<close>, and since it is the only one the file name for \<open>movie.ext\<close> is
  \<open>movie.srt\<close>.
\<close>

theorem single_fra_decision:
  assumes "language a = ''fra''" and "\<not> scan_only a" and "\<not> get_forced a" and "\<not> get_sdh a"
      and "ext \<in> set supported_extensions"
  shows "fst (examine_streams a (''movie'' @ ext) 2 [stream_fra, stream_eng] (- 1) False [])
           = Inr [(0, ''fra'', False)] \<and>
         map (final_name (''movie'' @ ext) (length [(0::int, ''fra'', False)]))
           [(0, ''fra'', False)] = [''movie.srt'']"
proof
  show "fst (examine_streams a (''movie'' @ ext) 2 [stream_fra, stream_eng] (- 1) False [])
          = Inr [(0, ''fra'', False)]"
    using assms(1-4)
    by (simp add: examine_stream_def stream_tags_def select_stream_def try_bind_def
        stream_fra_def stream_eng_def subtitle_stream_def unsupported_codec_def
        lower_def lower_char_def)
next
  from assms(5) have "fst (splitext (''movie'' @ ext)) = ''movie''"
    by (rule splitext_movie)
  then show "map (final_name (''movie'' @ ext) (length [(0::int, ''fra'', False)]))
               [(0, ''fra'', False)] = [''movie.srt'']"
    by (simp add: final_name_def)
qed

section \<open>Instances on the example inputs\<close>

lemmas stream_eval =
  examine_stream_def stream_tags_def select_stream_def try_bind_def
  subtitle_stream_def unsupported_codec_def lower_def lower_char_def

theorem is_forced_iff_witness:
  "stream_tags stream_forced_title
     = Inr (JInt 0, JStr ''fra'', JStr ''French FORCED'', True) \<and>
   (True \<longleftrightarrow> py_eq_int (JInt 0) 1 \<or>
      (\<exists>t ps ms ss. JStr ''French FORCED'' = JStr t \<and> t = ps @ ms @ ss \<and>
                     lower ms = lower ''forc''))"
proof -
  have h: "stream_tags stream_forced_title
             = Inr (JInt 0, JStr ''fra'', JStr ''French FORCED'', True)"
    by (simp add: stream_forced_title_def stream_eval)
  from is_forced_iff [OF h] h show ?thesis by blast
qed

theorem language_filter_witness:
  "(\<exists>ms. select_stream example_args (JStr ''subrip'') (JStr ''eng'') (JStr ''unset'') False
           = Inr (Ignore_language, ms)) \<and>
   select_stream example_args (JStr ''subrip'') (JStr ''unset'') (JStr ''unset'') False
     \<noteq> Inr (Ignore_language, [])"
  using language_filter [of example_args "JStr ''subrip''" False "JStr ''eng''"
      "JStr ''unset''" "[]"]
  by (simp add: example_args_def unsupported_codec_def)

theorem output_names_witness:
  "examine_streams (example_args\<lparr>language := ''fra,eng''\<rparr>) ''movie.mkv'' 2
     [stream_fra, stream_eng] (- 1) False []
     = (Inr [(0, ''fra'', False), (1, ''eng'', False)], [Msg_process ''movie.mkv'' 2]) \<and>
   distinct (map (final_name ''movie.mkv'' 2) [(0, ''fra'', False), (1, ''eng'', False)]) \<and>
   final_name ''movie.mkv'' 2 (1, ''eng'', False) = ''movie.eng.1.srt''"
proof -
  have h: "examine_streams (example_args\<lparr>language := ''fra,eng''\<rparr>) ''movie.mkv'' 2
             [stream_fra, stream_eng] (- 1) False []
             = (Inr [(0, ''fra'', False), (1, ''eng'', False)], [Msg_process ''movie.mkv'' 2])"
    by (simp add: example_args_def stream_fra_def stream_eng_def stream_eval)
  have len: "length [(0::int, ''fra'', False), (1, ''eng'', False)] = 2" by simp
  then have "2 \<le> length [(0::int, ''fra'', False), (1, ''eng'', False)]" by simp
  with output_names [OF h] have
    "distinct (map (final_name ''movie.mkv'' (length [(0::int, ''fra'', False), (1, ''eng'', False)]))
       [(0, ''fra'', False), (1, ''eng'', False)])"
    by blast
  then have dist:
    "distinct (map (final_name ''movie.mkv'' 2) [(0, ''fra'', False), (1, ''eng'', False)])"
    by (simp only: len)
  have n: "final_name ''movie.mkv'' 2 (1, ''eng'', False) = ''movie.eng.1.srt''"
    by (simp add: final_name_def splitext_def str_int_def digit_char_def)
  from h dist n show ?thesis by blast
qed

text \<open>
  Claim C4 as stated fails with the default \<open>verbose = 0\<close>: the destination exists and
  nothing is printed.
\<close>

theorem silent_skip_counterexample:
  "path_exists extracted_state (final_name ''movie.mkv'' 1 (0, ''fra'', False)) \<and>
   out (snd (extract_stream exec_writes example_args ''movie.mkv'' 1 (0, ''fra'', False)
               extracted_state)) = []"
  by (simp add: extracted_state_def example_args_def extract_stream_def final_name_def
      splitext_def path_exists_def)

theorem never_rewrite_witness:
  "path_exists extracted_state (final_name ''movie.mkv'' 1 (0, ''fra'', False)) \<and>
   (\<exists>st'. for_each (extract_stream exec_writes (example_args\<lparr>verbose := 1\<rparr>) ''movie.mkv'' 1)
             [(0, ''fra'', False)] extracted_state = (Inr (), st') \<and>
          fs st' = fs extracted_state \<and> calls st' = [])"
proof -
  have p: "path_exists extracted_state (final_name ''movie.mkv'' 1 (0, ''fra'', False))"
    by (simp add: final_name_def splitext_def extracted_state_def path_exists_def)
  then have h: "\<forall>d \<in> set [(0::int, ''fra'', False)].
             path_exists extracted_state (final_name ''movie.mkv'' 1 d)"
    by simp
  have c: "calls extracted_state = []"
    by (simp add: extracted_state_def)
  from never_rewrite [OF h, of exec_writes "example_args\<lparr>verbose := 1\<rparr>"] p c
  show ?thesis by simp
qed

theorem subtitle_ordinal_witness:
  "keep_subtitles [stream_video, stream_fra, stream_eng] = Inr [stream_fra, stream_eng] \<and>
   examine_streams (example_args\<lparr>language := ''fra,eng''\<rparr>) ''movie.mkv'' 2
     [stream_fra, stream_eng] (- 1) False []
     = (Inr [(0, ''fra'', False), (1, ''eng'', False)], [Msg_process ''movie.mkv'' 2]) \<and>
   py_get ([stream_fra, stream_eng] ! nat 1) ''index'' (JStr ''unknown'') = Inr (JInt 3) \<and>
   calls (snd (extract_stream exec_writes (example_args\<lparr>language := ''fra,eng''\<rparr>)
                 ''movie.mkv'' 2 (1, ''eng'', False) empty_state))
     = [[''ffmpeg'', ''-hide_banner'', ''-loglevel'', ''error'', ''-n'', ''-i'', ''movie.mkv'',
         ''-map'', ''0:s:1'', ''movie.eng.1.srt'']]"
proof -
  have k: "keep_subtitles [stream_video, stream_fra, stream_eng] = Inr [stream_fra, stream_eng]"
    by (simp add: stream_video_def stream_fra_def stream_eng_def subtitle_stream_def
        try_bind_def)
  have h: "examine_streams (example_args\<lparr>language := ''fra,eng''\<rparr>) ''movie.mkv'' 2
             [stream_fra, stream_eng] (- 1) False []
             = (Inr [(0, ''fra'', False), (1, ''eng'', False)], [Msg_process ''movie.mkv'' 2])"
    by (simp add: example_args_def stream_fra_def stream_eng_def stream_eval)
  have m: "(1, ''eng'', False) \<in> set [(0::int, ''fra'', False), (1, ''eng'', False)]"
    by simp
  have n: "final_name ''movie.mkv'' 2 (1, ''eng'', False) = ''movie.eng.1.srt''"
    by (simp add: final_name_def splitext_def str_int_def digit_char_def)
  have d: "str_int 1 = ''1''"
    by (simp add: str_int_def digit_char_def)
  have i: "py_get ([stream_fra, stream_eng] ! nat 1) ''index'' (JStr ''unknown'') = Inr (JInt 3)"
    by (simp add: stream_eng_def subtitle_stream_def)
  have e: "\<not> path_exists empty_state ''movie.eng.1.srt''" "calls empty_state = []"
    by (simp_all add: empty_state_def path_exists_def)
  from subtitle_ordinal [OF k h m, of exec_writes 2 empty_state] k h n d i e
  show ?thesis by simp
qed

theorem unsupported_codec_never_extracted_witness:
  "examine_streams example_args ''movie.mkv'' 2 [stream_pgs, stream_fra] (- 1) False []
     = (Inr [(1, ''fra'', False)], [Msg_process ''movie.mkv'' 2]) \<and>
   py_get ([stream_pgs, stream_fra] ! 0) ''codec_name'' (JStr ''unknown'')
     = Inr (JStr ''hdmv_pgs_subtitle'') \<and>
   int 0 \<notin> fst ` set [(1::int, ''fra'', False)]"
proof -
  have h: "examine_streams example_args ''movie.mkv'' 2 [stream_pgs, stream_fra] (- 1) False []
             = (Inr [(1, ''fra'', False)], [Msg_process ''movie.mkv'' 2])"
    by (simp add: example_args_def stream_pgs_def stream_fra_def stream_eval)
  have j: "0 < length [stream_pgs, stream_fra]" by simp
  have c: "py_get ([stream_pgs, stream_fra] ! 0) ''codec_name'' (JStr ''unknown'')
             = Inr (JStr ''hdmv_pgs_subtitle'')"
    by (simp add: stream_pgs_def subtitle_stream_def)
  have u: "''hdmv_pgs_subtitle'' \<in> set unsupported_codec"
    by (simp add: unsupported_codec_def)
  from unsupported_codec_never_extracted [OF h j c u] h c show ?thesis by simp
qed

text \<open>
  Claim C7 as stated fails: the single decision gets the short name, not
  \<open>movie.fra.0.srt\<close>.
\<close>

theorem scenario_path_counterexample:
  "fst (examine_streams (example_args\<lparr>language := ''fra''\<rparr>) ''movie.mkv'' 2
          [stream_fra, stream_eng] (- 1) False []) = Inr [(0, ''fra'', False)] \<and>
   final_name ''movie.mkv'' (length [(0::int, ''fra'', False)]) (0, ''fra'', False)
     \<noteq> ''movie.fra.0.srt''"
  by (simp add: example_args_def stream_fra_def stream_eng_def stream_eval
      final_name_def splitext_def)

theorem single_fra_decision_witness:
  "''.mkv'' \<in> set supported_extensions \<and>
   fst (examine_streams (example_args\<lparr>language := ''fra''\<rparr>) ''movie.mkv'' 2
          [stream_fra, stream_eng] (- 1) False []) = Inr [(0, ''fra'', False)] \<and>
   map (final_name ''movie.mkv'' 1) [(0, ''fra'', False)] = [''movie.srt'']"
proof -
  have e: "''.mkv'' \<in> set supported_extensions"
    by (simp add: supported_extensions_def)
  from single_fra_decision [of "example_args\<lparr>language := ''fra''\<rparr>" "''.mkv''", OF _ _ _ _ e] e
  show ?thesis by (simp add: example_args_def)
qed

text \<open>
  Claim C8 as stated fails when the binary is missing: the \<open>OSError\<close> is not caught, no
  result is returned, and the following file is not processed.
\<close>

theorem launch_failure_counterexample:
  "ffprobe exec_missing ''movie.mkv'' empty_state
     = (Inl (OSError 2), empty_state\<lparr>calls := [ffprobe_command ''movie.mkv'']\<rparr>) \<and>
   fst (get_ffmpeg_track_id exec_missing loads_fra_eng example_args ''movie.mkv'' empty_state)
     = Inl (OSError 2) \<and>
   fst (for_each (process_movie exec_missing loads_fra_eng example_args)
          [(Some ''films'', ''movie.mkv''), (Some ''films'', ''other.mkv'')] empty_state)
     = Inl (OSError 2)"
  by (simp add: ffprobe_def subprocess_run_def exec_missing_def empty_state_def
      get_ffmpeg_track_id_def process_movie_def splitext_def supported_extensions_def
      path_join_def)

theorem probe_failure_skips_file_witness:
  "fst (exec_exit1 (ffprobe_command ''films/movie.mkv'') (fs empty_state)) = Exited 1 [] ''failed'' \<and>
   (\<exists>r st1.
      ffprobe exec_exit1 ''films/movie.mkv'' empty_state = (Inr r, st1) \<and>
      return_code r \<noteq> 0 \<and> json r = [] \<and>
      get_ffmpeg_track_id exec_exit1 loads_fails example_args ''films/movie.mkv'' empty_state =
        (Inr (), prints st1 [Msg_error_probe ''films/movie.mkv'', Msg_probe_stderr (error r)]) \<and>
      for_each (process_movie exec_exit1 loads_fails example_args)
        [(Some ''films'', ''movie.mkv''), (Some ''films'', ''other.mkv'')] empty_state =
      for_each (process_movie exec_exit1 loads_fails example_args)
        [(Some ''films'', ''other.mkv'')]
        (prints st1 [Msg_error_probe ''films/movie.mkv'', Msg_probe_stderr (error r)]))"
proof -
  have x: "fst (exec_exit1 (ffprobe_command ''films/movie.mkv'') (fs empty_state))
             = Exited 1 [] ''failed''"
    by (simp add: exec_exit1_def)
  then have h: "fst (exec_exit1 (ffprobe_command ''films/movie.mkv'') (fs empty_state)) = Undecodable \<or>
           (\<exists>rc so se. fst (exec_exit1 (ffprobe_command ''films/movie.mkv'') (fs empty_state))
                          = Exited rc so se \<and> rc \<noteq> 0)"
    by simp
  have p: "''films'' \<noteq> [] \<and> snd (splitext ''movie.mkv'') \<in> set supported_extensions \<and>
           ''films/movie.mkv'' = path_join ''films'' ''movie.mkv''"
    by (simp add: splitext_def supported_extensions_def path_join_def)
  from probe_failure_skips_file [of exec_exit1 "''films/movie.mkv''" empty_state loads_fails
      example_args, OF h] x p
  show ?thesis by blast
qed

text \<open>
  Claim C9 as stated fails when a file list is given and the probe binary is missing: the
  run ends with status 1.
\<close>

theorem launch_failure_status_counterexample:
  "filelist example_args \<noteq> [] \<and>
   fst (run_script exec_missing loads_fra_eng glob_file (Namespace example_args) empty_state) = 1"
  by (simp add: run_script_def main_def process_def process_movie_def get_ffmpeg_track_id_def
      ffprobe_def subprocess_run_def exec_missing_def example_args_def glob_file_def
      rstrip_def path_split_def path_join_def splitext_def supported_extensions_def
      exit_status_def empty_state_def)

theorem exit_status_zero_witness:
  "filelist (example_args\<lparr>language := ''fra''\<rparr>) \<noteq> [] \<and>
   (\<forall>cmd f n. fst (exec_extract_fails cmd f) \<noteq> NotLaunched n) \<and>
   exec_extract_fails (ffprobe_command ''movie.mkv'') Map.empty
     = (Exited 0 ''report'' [], Map.empty) \<and>
   fst (run_script exec_extract_fails loads_report glob_file
          (Namespace (example_args\<lparr>language := ''fra''\<rparr>)) empty_state) = 0 \<and>
   snd (run_script exec_extract_fails loads_report glob_file
          (Namespace (example_args\<lparr>language := ''fra''\<rparr>)) empty_state)
     = \<lparr>fs = Map.empty,
        out = [Msg_process ''movie.mkv'' 2, Msg_error_code 1 (Text ''failed'')],
        calls = [ffprobe_command ''movie.mkv'',
                 ffmpeg_command ''movie.mkv'' 0 ''movie.srt'']\<rparr>"
proof -
  let ?a = "example_args\<lparr>language := ''fra''\<rparr>"
  have a: "filelist ?a \<noteq> []" by (simp add: example_args_def)
  have l: "\<forall>cmd f n. fst (exec_extract_fails cmd f) \<noteq> NotLaunched n"
    by (simp add: exec_extract_fails_def)
  have p: "exec_extract_fails (ffprobe_command ''movie.mkv'') Map.empty
             = (Exited 0 ''report'' [], Map.empty)"
    by (simp add: exec_extract_fails_def ffprobe_command_def)
  have e: "examine_streams ?a file_path 2 [stream_fra, stream_eng] (- 1) False []
             = (Inr [(0, ''fra'', False)], [Msg_process file_path 2])" for file_path
    by (simp add: example_args_def stream_fra_def stream_eng_def stream_eval)
  have r: "try_bind (loads_report ''report'') subtitle_streams = Inr [stream_fra, stream_eng]"
    by (simp add: loads_report_def subtitle_streams_def try_bind_def stream_video_def
        stream_fra_def stream_eng_def subtitle_stream_def)
  have s: "\<forall>file_path f so se f'.
             exec_extract_fails (ffprobe_command file_path) f = (Exited 0 so se, f') \<longrightarrow>
             (\<exists>streams ds ms.
                try_bind (loads_report so) subtitle_streams = Inr streams \<and>
                examine_streams ?a file_path (length streams) streams (- 1) False []
                  = (Inr ds, ms))"
  proof (intro allI impI)
    fix file_path f so se f'
    assume "exec_extract_fails (ffprobe_command file_path) f = (Exited 0 so se, f')"
    then have "so = ''report''"
      by (simp add: exec_extract_fails_def ffprobe_command_def)
    with r e [of file_path]
    have "try_bind (loads_report so) subtitle_streams = Inr [stream_fra, stream_eng] \<and>
          examine_streams ?a file_path (length [stream_fra, stream_eng])
            [stream_fra, stream_eng] (- 1) False []
            = (Inr [(0, ''fra'', False)], [Msg_process file_path 2])"
      by (simp add: numeral_2_eq_2)
    then show "\<exists>streams ds ms.
                try_bind (loads_report so) subtitle_streams = Inr streams \<and>
                examine_streams ?a file_path (length streams) streams (- 1) False []
                  = (Inr ds, ms)"
      by blast
  qed
  have st: "snd (run_script exec_extract_fails loads_report glob_file (Namespace ?a) empty_state)
     = \<lparr>fs = Map.empty,
        out = [Msg_process ''movie.mkv'' 2, Msg_error_code 1 (Text ''failed'')],
        calls = [ffprobe_command ''movie.mkv'',
                 ffmpeg_command ''movie.mkv'' 0 ''movie.srt'']\<rparr>"
    by (simp add: run_script_def main_def process_def process_movie_def glob_file_def
        rstrip_def path_split_def path_join_def supported_extensions_def
        get_ffmpeg_track_id_def ffprobe_def ffprobe_command_def subprocess_run_def
        exec_extract_fails_def loads_report_def subtitle_streams_def stream_video_def
        stream_fra_def stream_eng_def example_args_def empty_state_def stream_eval
        extract_stream_def final_name_def splitext_def path_exists_def ffsubextract_def
        ffmpeg_command_def prints_def str_int_def digit_char_def Let_def numeral_2_eq_2)
  from exit_status_zero [OF a l s] a l p st show ?thesis by blast
qed

theorem unset_language_name_witness:
  "examine_stream (example_args\<lparr>language := ''fra''\<rparr>) ''movie.mkv'' 2 1 True stream_untagged
     = (Inr (Some (1, ''unset'', False)), []) \<and>
   final_name ''movie.mkv'' 2 (1, ''unset'', False) = ''movie.unset.1.srt''"
proof -
  have h: "examine_stream (example_args\<lparr>language := ''fra''\<rparr>) ''movie.mkv'' 2 1 True
             stream_untagged = (Inr (Some (1, ''unset'', False)), [])"
    by (simp add: example_args_def stream_untagged_def stream_eval)
  have t: "py_get stream_untagged ''tags'' (JObj []) = Inr (JObj [])"
    by (simp add: stream_untagged_def subtitle_stream_def)
  have n: "map_of ([] :: (string \<times> jvalue) list) ''language'' = None" by simp
  have k: "(2::nat) \<noteq> 1" by simp
  have s: "fst (splitext ''movie.mkv'') = ''movie''"
    by (simp add: splitext_def)
  have d: "str_int 1 = ''1''"
    by (simp add: str_int_def digit_char_def)
  from unset_language_name [OF h t n k] h s d show ?thesis by simp
qed

text \<open>
  Two runs on the same file: the first extracts the only selected stream to
  \<open>movie.srt\<close>, the second starts the probe only and, with \<open>verbose = 0\<close>, prints nothing
  about the file that exists.
\<close>

lemma first_run_example:
  "get_ffmpeg_track_id exec_writes loads_fra_eng (example_args\<lparr>language := ''fra''\<rparr>)
     ''movie.mkv'' empty_state =
   (Inr (), \<lparr>fs = [''movie.srt'' \<mapsto> ''subtitles''],
             out = [Msg_process ''movie.mkv'' 2, Msg_done ''movie.srt''],
             calls = [ffprobe_command ''movie.mkv'',
                      ffmpeg_command ''movie.mkv'' 0 ''movie.srt'']\<rparr>)"
  by (simp add: get_ffmpeg_track_id_def ffprobe_def ffprobe_command_def subprocess_run_def
      exec_writes_def loads_fra_eng_def subtitle_streams_def stream_video_def stream_fra_def
      stream_eng_def example_args_def empty_state_def stream_eval extract_stream_def
      final_name_def splitext_def path_exists_def ffsubextract_def ffmpeg_command_def
      prints_def str_int_def digit_char_def Let_def numeral_2_eq_2)

lemma second_run_example:
  "get_ffmpeg_track_id exec_writes loads_fra_eng (example_args\<lparr>language := ''fra''\<rparr>)
     ''movie.mkv'' extracted_state =
   (Inr (), \<lparr>fs = [''movie.srt'' \<mapsto> ''subtitles''],
             out = [Msg_process ''movie.mkv'' 2],
             calls = [ffprobe_command ''movie.mkv'']\<rparr>)"
  by (simp add: get_ffmpeg_track_id_def ffprobe_def ffprobe_command_def subprocess_run_def
      exec_writes_def loads_fra_eng_def subtitle_streams_def stream_video_def stream_fra_def
      stream_eng_def example_args_def extracted_state_def stream_eval extract_stream_def
      final_name_def splitext_def path_exists_def prints_def Let_def numeral_2_eq_2)

text \<open>
  The two ways \<open>main\<close> leaves early: the status of the parser, and the branch of lines
  228 to 230 for a namespace with an empty file list.
\<close>

lemma no_filelist_branch:
  "filelist a = [] \<Longrightarrow> fst (run_script ex loads glob (Namespace a) st) = 1"
  by (simp add: run_script_def main_def exit_status_def)

lemma parser_exit_status: "fst (run_script ex loads glob (Parser_exit c) st) = c"
  by (simp add: run_script_def main_def exit_status_def)

end
